theory Spec2Isabelle
  imports Main "HOL-Library.AList" "HOL-Library.Multiset" "HOL-Library.Sublist"
begin

section \<open>Python strings\<close>

text \<open>
  A Python \<open>str\<close> is modelled as a \<open>string\<close>, one \<open>char\<close> per code point, for the code
  points below 256. On these, \<open>str.isspace\<close> (which \<open>str.strip\<close> and the regular
  expression class \<open>\s\<close> use) holds of the twelve code points listed in \<open>is_space\<close>, and
  \<open>str.lower\<close> moves \<open>A\<close>-\<open>Z\<close> and the Latin-1 capitals (192 to 222 without the
  multiplication sign 215) up by 32 and leaves every other code point alone.
\<close>

definition is_space :: "char \<Rightarrow> bool" where
  "is_space c = (of_char c \<in> {9, 10, 11, 12, 13, 28, 29, 30, 31, 32, 133, 160 :: nat})"

definition lower_char :: "char \<Rightarrow> char" where
  "lower_char c =
     (let n = (of_char c :: nat)
      in if (65 \<le> n \<and> n \<le> 90) \<or> (192 \<le> n \<and> n \<le> 222 \<and> n \<noteq> 215)
         then char_of (n + 32) else c)"

definition lower :: "string \<Rightarrow> string" where
  "lower s = map lower_char s"

definition lstrip :: "string \<Rightarrow> string" where
  "lstrip s = dropWhile is_space s"

definition rstrip :: "string \<Rightarrow> string" where
  "rstrip s = rev (dropWhile is_space (rev s))"

definition strip :: "string \<Rightarrow> string" where
  "strip s = rstrip (lstrip s)"

text \<open>\<open>needle in haystack\<close> on strings: the needle occurs as a contiguous piece.\<close>

definition is_in :: "string \<Rightarrow> string \<Rightarrow> bool" where
  "is_in needle haystack = sublist needle haystack"

text \<open>\<open>s.startswith(p)\<close>, comparing character by character from the left.\<close>

fun starts_with :: "string \<Rightarrow> string \<Rightarrow> bool" where
  "starts_with [] s = True"
| "starts_with (x # xs) [] = False"
| "starts_with (x # xs) (y # ys) = (if x = y then starts_with xs ys else False)"

text \<open>\<open>any(t in s for t in ts)\<close>\<close>

definition any_in :: "string list \<Rightarrow> string \<Rightarrow> bool" where
  "any_in ts s = list_ex (\<lambda>t. is_in t s) ts"

text \<open>
  \<open>str.upper\<close> on the code points below 256: \<open>a\<close>-\<open>z\<close> and the Latin-1 small letters
  (224 to 254 without the division sign 247) move down by 32 and the sharp s (223) becomes
  \<open>SS\<close>. The micro sign (181) and the y with diaeresis (255) have capitals beyond 255,
  which are different from every code point below 256; they are kept here as they are.
\<close>

definition upper_char :: "char \<Rightarrow> string" where
  "upper_char c =
     (let n = (of_char c :: nat)
      in if (97 \<le> n \<and> n \<le> 122) \<or> (224 \<le> n \<and> n \<le> 254 \<and> n \<noteq> 247)
         then [char_of (n - 32)]
         else if n = 223 then ''SS'' else [c])"

definition upper :: "string \<Rightarrow> string" where
  "upper s = concat (map upper_char s)"

text \<open>\<open>x in xs\<close> for a list of strings, and \<open>d.get(k)\<close> for a dict with string keys.\<close>

definition in_list :: "string \<Rightarrow> string list \<Rightarrow> bool" where
  "in_list x xs = (x \<in> set xs)"

definition dict_get :: "(string \<times> 'v) list \<Rightarrow> string \<Rightarrow> 'v option" where
  "dict_get d k = map_of d k"

text \<open>\<open>s.split(d)\<close> for a one-character separator: never the empty list.\<close>

fun split_on :: "char \<Rightarrow> string \<Rightarrow> string list" where
  "split_on d [] = [[]]"
| "split_on d (c # cs) =
     (if c = d then [] # split_on d cs
      else case split_on d cs of [] \<Rightarrow> [[c]] | p # ps \<Rightarrow> (c # p) # ps)"

text \<open>\<open>sep.join(xs)\<close>\<close>

fun join :: "string \<Rightarrow> string list \<Rightarrow> string" where
  "join sep [] = []"
| "join sep [x] = x"
| "join sep (x # y # ys) = x @ sep @ join sep (y # ys)"

section \<open>The regular expressions of the program\<close>

text \<open>
  The program uses Python's \<open>re\<close> on patterns built from literal text,
  single-character classes with a repetition count, the anchors \<open>^\<close>, \<open>$\<close> and \<open>\b\<close>, groups around one
  repeated class, and alternation at the top level. Such a pattern is a list of
  alternatives, each a list of atoms. \<open>re_match\<close> is the backtracking matcher: it tries
  the repetition counts of an atom in the order of Python (a greedy count from the longest
  run down, a lazy one from the shortest up) and returns the first way that lets the rest
  of the pattern match, with the captured groups in order and the unmatched rest of the
  string. The argument \<open>prev\<close> is the character before the current position, \<open>None\<close>
  at the start of the subject string.
\<close>

datatype count = Once | Optional | Star | Plus | Lazy_Star | Lazy_Plus

datatype atom =
    Class "char \<Rightarrow> bool" count bool
  | Lit string
  | Bol
  | Eol
  | Word_Boundary

fun counts :: "count \<Rightarrow> nat \<Rightarrow> nat list" where
  "counts Once n = (if 0 < n then [1] else [])"
| "counts Optional n = (if 0 < n then [1, 0] else [0])"
| "counts Star n = rev [0..<Suc n]"
| "counts Plus n = rev [1..<Suc n]"
| "counts Lazy_Star n = [0..<Suc n]"
| "counts Lazy_Plus n = [1..<Suc n]"

definition run_length :: "(char \<Rightarrow> bool) \<Rightarrow> string \<Rightarrow> nat" where
  "run_length cls s = length (takeWhile cls s)"

fun first_some :: "('a \<Rightarrow> 'b option) \<Rightarrow> 'a list \<Rightarrow> 'b option" where
  "first_some f [] = None"
| "first_some f (x # xs) = (case f x of None \<Rightarrow> first_some f xs | Some y \<Rightarrow> Some y)"

text \<open>
  \<open>\w\<close> on the code points below 256: digits, ASCII letters, the underscore and the
  Latin-1 letters and numeric signs for which \<open>str.isalnum\<close> holds.
\<close>

definition is_word :: "char \<Rightarrow> bool" where
  "is_word c =
     (let n = (of_char c :: nat)
      in (48 \<le> n \<and> n \<le> 57) \<or> (65 \<le> n \<and> n \<le> 90) \<or> n = 95 \<or> (97 \<le> n \<and> n \<le> 122) \<or>
         n \<in> {170, 178, 179, 181, 185, 186, 188, 189, 190} \<or>
         (192 \<le> n \<and> n \<le> 255 \<and> n \<noteq> 215 \<and> n \<noteq> 247))"

definition newline :: char where
  "newline = CHR 0x0A"

text \<open>Without the MULTILINE flag \<open>$\<close> holds at the end and before a final newline.\<close>

definition at_eol :: "string \<Rightarrow> bool" where
  "at_eol s = (s = [] \<or> s = [newline])"

definition at_word_boundary :: "char option \<Rightarrow> string \<Rightarrow> bool" where
  "at_word_boundary prev s =
     ((case prev of None \<Rightarrow> False | Some c \<Rightarrow> is_word c) \<noteq>
      (case s of [] \<Rightarrow> False | c # _ \<Rightarrow> is_word c))"

text \<open>The character before the position reached after the characters \<open>t\<close>.\<close>

definition last_char :: "char option \<Rightarrow> string \<Rightarrow> char option" where
  "last_char prev t = (if t = [] then prev else Some (last t))"

text \<open>
  \<open>try_counts\<close> goes through the candidate counts \<open>ns\<close> of a class in their order and
  stops at the first count for which the rest of the pattern matches.
\<close>

fun re_match :: "atom list \<Rightarrow> char option \<Rightarrow> string \<Rightarrow> (string list \<times> string) option"
  and try_counts :: "bool \<Rightarrow> atom list \<Rightarrow> char option \<Rightarrow> string \<Rightarrow> nat list \<Rightarrow>
    (string list \<times> string) option" where
  "re_match [] prev s = Some ([], s)"
| "re_match (Bol # as) prev s = (if prev = None then re_match as prev s else None)"
| "re_match (Eol # as) prev s = (if at_eol s then re_match as prev s else None)"
| "re_match (Word_Boundary # as) prev s =
     (if at_word_boundary prev s then re_match as prev s else None)"
| "re_match (Lit w # as) prev s =
     (if starts_with w s then re_match as (last_char prev w) (drop (length w) s) else None)"
| "re_match (Class cls cnt cap # as) prev s =
     try_counts cap as prev s (counts cnt (run_length cls s))"
| "try_counts cap as prev s [] = None"
| "try_counts cap as prev s (n # ns) =
     (case re_match as (last_char prev (take n s)) (drop n s) of
        None \<Rightarrow> try_counts cap as prev s ns
      | Some (gs, rest) \<Rightarrow> Some (if cap then take n s # gs else gs, rest))"

text \<open>Alternation: the first alternative that matches.\<close>

definition re_alt :: "atom list list \<Rightarrow> char option \<Rightarrow> string \<Rightarrow> (string list \<times> string) option" where
  "re_alt p prev s = first_some (\<lambda>alt. re_match alt prev s) p"

text \<open>\<open>re.search(p, s)\<close> as a truth value: a match at some position, scanning from the left.\<close>

fun re_search_from :: "atom list list \<Rightarrow> char option \<Rightarrow> string \<Rightarrow> bool" where
  "re_search_from p prev [] = (re_alt p prev [] \<noteq> None)"
| "re_search_from p prev (c # cs) =
     (re_alt p prev (c # cs) \<noteq> None \<or> re_search_from p (Some c) cs)"

definition re_search :: "atom list list \<Rightarrow> string \<Rightarrow> bool" where
  "re_search p s = re_search_from p None s"

text \<open>
  \<open>re.sub(p, repl, s)\<close> for a pattern that never matches the empty string, as all
  substituted patterns of the program are: the leftmost match is replaced by \<open>repl\<close> of
  its groups and the scan goes on behind it. \<open>skip\<close> counts the characters of the
  current match still to be passed over.
\<close>

fun re_sub_from :: "atom list list \<Rightarrow> (string list \<Rightarrow> string) \<Rightarrow> char option \<Rightarrow> nat \<Rightarrow> string \<Rightarrow> string" where
  "re_sub_from p repl prev skip [] = []"
| "re_sub_from p repl prev skip (c # cs) =
     (if 0 < skip then re_sub_from p repl (Some c) (skip - 1) cs
      else case re_alt p prev (c # cs) of
             None \<Rightarrow> c # re_sub_from p repl (Some c) 0 cs
           | Some (gs, rest) \<Rightarrow>
               if length rest \<le> length cs
               then repl gs @ re_sub_from p repl (Some c) (length cs - length rest) cs
               else c # re_sub_from p repl (Some c) 0 cs)"

definition re_sub :: "atom list list \<Rightarrow> (string list \<Rightarrow> string) \<Rightarrow> string \<Rightarrow> string" where
  "re_sub p repl s = re_sub_from p repl None 0 s"

text \<open>A literal under IGNORECASE, character by character.\<close>

definition lit_ignorecase :: "string \<Rightarrow> atom list" where
  "lit_ignorecase s = map (\<lambda>c. Class (\<lambda>x. lower_char x = lower_char c) Once False) s"

section \<open>Listings and canonical records\<close>

text \<open>
  A raw listing is the dict that \<open>parse_edition\<close> completes: the fields of
  \<open>parse_job_line\<close> plus \<open>edition\<close>, \<open>date\<close> and \<open>role_category\<close>
  (\<open>None\<close> before the first heading). Editions are Python integers.
\<close>

record listing =
  company :: string
  industry :: string
  stage :: string
  location :: string
  investors :: string
  edition :: int
  date :: string
  role_category :: "string option"

text \<open>The dict stored in \<open>company_map\<close> by \<open>deduplicate_companies\<close>.\<close>

record canonical_company =
  cc_company :: string
  cc_industry :: string
  cc_stage :: string
  cc_location :: string
  cc_investors :: string
  editions :: "int list"
  latest_edition :: int
  latest_date :: string
  role_categories :: "string list"
  description :: string

section \<open>deduplicate_companies\<close>

text \<open>\<open>key = c['company'].lower().strip()\<close>\<close>

definition company_key :: "listing \<Rightarrow> string" where
  "company_key c = strip (lower (company c))"

text \<open>
  Python's truth test of \<open>c.get('role_category')\<close>: \<open>None\<close> and the empty string are
  false. \<open>truthy_category\<close> returns the category when the test succeeds.
\<close>

definition truthy_category :: "string option \<Rightarrow> string option" where
  "truthy_category rc = (case rc of None \<Rightarrow> None | Some s \<Rightarrow> if s = [] then None else Some s)"

text \<open>First sighting of a key: the record of lines 255 to 266 of \<open>scraper.py\<close>.\<close>

definition new_record :: "listing \<Rightarrow> canonical_company" where
  "new_record c =
     \<lparr>cc_company = company c,
      cc_industry = industry c,
      cc_stage = stage c,
      cc_location = location c,
      cc_investors = investors c,
      editions = [edition c],
      latest_edition = edition c,
      latest_date = date c,
      role_categories = (case truthy_category (role_category c) of None \<Rightarrow> [] | Some s \<Rightarrow> [s]),
      description = []\<rparr>"

text \<open>
  A later sighting mutates the stored dict in three steps, in the order of the source:
  the edition list, the promotion on a strictly greater edition with the backfill of
  empty fields, the role categories.
\<close>

definition add_edition :: "listing \<Rightarrow> canonical_company \<Rightarrow> canonical_company" where
  "add_edition c existing =
     (if edition c \<notin> set (editions existing)
      then existing\<lparr>editions := editions existing @ [edition c]\<rparr>
      else existing)"

definition backfill :: "listing \<Rightarrow> canonical_company \<Rightarrow> canonical_company" where
  "backfill c existing =
     (let e1 = (if cc_industry existing = [] \<and> industry c \<noteq> []
                then existing\<lparr>cc_industry := industry c\<rparr> else existing);
          e2 = (if cc_stage e1 = [] \<and> stage c \<noteq> []
                then e1\<lparr>cc_stage := stage c\<rparr> else e1)
      in if cc_location e2 = [] \<and> location c \<noteq> []
         then e2\<lparr>cc_location := location c\<rparr> else e2)"

definition promote :: "listing \<Rightarrow> canonical_company \<Rightarrow> canonical_company" where
  "promote c existing =
     (if edition c > latest_edition existing
      then backfill c (existing\<lparr>latest_edition := edition c, latest_date := date c\<rparr>)
      else existing)"

definition add_category :: "listing \<Rightarrow> canonical_company \<Rightarrow> canonical_company" where
  "add_category c existing =
     (case truthy_category (role_category c) of
        None \<Rightarrow> existing
      | Some s \<Rightarrow> if s \<notin> set (role_categories existing)
                  then existing\<lparr>role_categories := role_categories existing @ [s]\<rparr>
                  else existing)"

definition merge_existing :: "listing \<Rightarrow> canonical_company \<Rightarrow> canonical_company" where
  "merge_existing c existing = add_category c (promote c (add_edition c existing))"

text \<open>
  \<open>company_map\<close> is a Python dict, which keeps its keys in insertion order: an
  association list, where \<open>AList.update\<close> replaces the value of a present key in place
  and appends an absent key at the end.
\<close>

type_synonym company_map = "(string \<times> canonical_company) list"

definition merge_step :: "company_map \<Rightarrow> listing \<Rightarrow> company_map" where
  "merge_step company_map c =
     (let key = company_key c
      in case map_of company_map key of
           None \<Rightarrow> AList.update key (new_record c) company_map
         | Some existing \<Rightarrow> AList.update key (merge_existing c existing) company_map)"

text \<open>The loop \<open>for c in companies\<close>, from the empty dict.\<close>

definition fold_companies :: "listing list \<Rightarrow> company_map" where
  "fold_companies companies = foldl merge_step [] companies"

text \<open>
  \<open>result.sort(key=lambda x: x['latest_edition'], reverse=True)\<close> is a stable sort on
  the values in insertion order: with \<open>reverse=True\<close> records of equal key keep their
  order, which is the stable ascending sort on the negated key.
\<close>

definition deduplicate_companies :: "listing list \<Rightarrow> canonical_company list" where
  "deduplicate_companies companies =
     sort_key (\<lambda>x. - latest_edition x) (map snd (fold_companies companies))"

subsection \<open>Views of the company map used in the proofs\<close>

text \<open>The invariant of a stored record: a non-empty edition list whose maximum is the latest edition.\<close>

definition latest_is_max :: "canonical_company \<Rightarrow> bool" where
  "latest_is_max r = (editions r \<noteq> [] \<and> latest_edition r = Max (set (editions r)))"

text \<open>The record stored under \<open>k\<close> lists edition \<open>e\<close>.\<close>

definition holds_edition :: "company_map \<Rightarrow> string \<Rightarrow> int \<Rightarrow> bool" where
  "holds_edition m k e = (case map_of m k of None \<Rightarrow> False | Some r \<Rightarrow> e \<in> set (editions r))"

text \<open>The part of a stored record that only edition numbers decide.\<close>

definition ed_view :: "company_map \<Rightarrow> string \<Rightarrow> (int list \<times> int) option" where
  "ed_view m k = map_option (\<lambda>r. (editions r, latest_edition r)) (map_of m k)"

text \<open>The same with the latest date, which depends on the dates of the listings as well.\<close>

definition dt_view :: "company_map \<Rightarrow> string \<Rightarrow> (int list \<times> int \<times> string) option" where
  "dt_view m k = map_option (\<lambda>r. (editions r, latest_edition r, latest_date r)) (map_of m k)"

text \<open>The categories stored under a key, and the categories one listing brings to a key.\<close>

definition cats_view :: "company_map \<Rightarrow> string \<Rightarrow> string set" where
  "cats_view m k = (case map_of m k of None \<Rightarrow> {} | Some r \<Rightarrow> set (role_categories r))"

definition cats_of_listing :: "listing \<Rightarrow> string \<Rightarrow> string set" where
  "cats_of_listing c k =
     (if company_key c = k then set_option (truthy_category (role_category c)) else {})"

subsection \<open>Sample listings\<close>

text \<open>Two sightings of one company in editions 5 and 12, the first without an industry.\<close>

definition acme_5 :: listing where
  "acme_5 = \<lparr>company = ''Acme Health'', industry = '''', stage = ''Series B'', location = ''SF'',
     investors = '''', edition = 5, date = ''Jan 5, 2024'', role_category = Some ''BizOps''\<rparr>"

definition acme_12 :: listing where
  "acme_12 = \<lparr>company = ''Acme Health'', industry = ''Healthcare'', stage = ''Series C'',
     location = ''NYC'', investors = '''', edition = 12, date = ''Mar 1, 2024'',
     role_category = Some ''VC''\<rparr>"

text \<open>Two listings of one company in the same edition that differ in their other fields.\<close>

definition dup_a :: listing where
  "dup_a = \<lparr>company = ''Acme'', industry = ''Fintech'', stage = ''Seed'', location = ''SF'',
     investors = '''', edition = 7, date = ''Feb 1, 2024'', role_category = Some ''BizOps''\<rparr>"

definition dup_b :: listing where
  "dup_b = \<lparr>company = ''ACME'', industry = ''AI'', stage = ''Series A'', location = ''NYC'',
     investors = ''a16z-backed'', edition = 7, date = ''Feb 1, 2024'', role_category = Some ''VC''\<rparr>"

text \<open>A listing with a blank company name and edition 0.\<close>

definition blank_0 :: listing where
  "blank_0 = \<lparr>company = ''  '', industry = ''AI'', stage = '''', location = ''SF'',
     investors = '''', edition = 0, date = '''', role_category = None\<rparr>"

section \<open>parse_job_line\<close>

text \<open>
  The function of \<open>scraper.py\<close>. The copy in \<open>build_data.py\<close> differs in the minimum
  line length (10 instead of 15), in not stripping markdown links, in a shorter list of
  skip words and in returning the job title as well; the handling of the details is the
  same text in both.
\<close>

record parsed_line =
  pl_company :: string
  pl_industry :: string
  pl_stage :: string
  pl_location :: string
  pl_investors :: string

text \<open>\<open>\[([^\]]+)\]\([^)]+\)\<close>, replaced by its first group.\<close>

definition markdown_link :: "atom list list" where
  "markdown_link =
     [[Lit ''['', Class (\<lambda>c. c \<noteq> CHR '']'') Plus True, Lit '']'',
       Lit ''('', Class (\<lambda>c. c \<noteq> CHR '')'') Plus False, Lit '')'']]"

text \<open>\<open>^([^,]+),\s*([^(]+?)\s*\(([^)]+)\),?\s*(.+?)$\<close>; the dot does not match a newline.\<close>

definition line_pattern :: "atom list list" where
  "line_pattern =
     [[Bol, Class (\<lambda>c. c \<noteq> CHR '','') Plus True, Lit '','', Class is_space Star False,
       Class (\<lambda>c. c \<noteq> CHR ''('') Lazy_Plus True, Class is_space Star False, Lit ''('',
       Class (\<lambda>c. c \<noteq> CHR '')'') Plus True, Lit '')'',
       Class (\<lambda>c. c = CHR '','') Optional False, Class is_space Star False,
       Class (\<lambda>c. c \<noteq> newline) Lazy_Plus True, Eol]]"

text \<open>\<open>[,\s]+$\<close> and \<open>^[/\s]+|[/\s]+$\<close>, both replaced by the empty string.\<close>

definition trailing_commas :: "atom list list" where
  "trailing_commas = [[Class (\<lambda>c. c = CHR '','' \<or> is_space c) Plus False, Eol]]"

definition edge_slashes :: "atom list list" where
  "edge_slashes =
     [[Bol, Class (\<lambda>c. c = CHR ''/'' \<or> is_space c) Plus False],
      [Class (\<lambda>c. c = CHR ''/'' \<or> is_space c) Plus False, Eol]]"

definition skip_words :: "string list" where
  "skip_words = [''subscribe'', ''click here'', ''fill out'', ''form here'', ''newsletter'']"

definition stage_keywords :: "string list" where
  "stage_keywords =
     [''series'', ''seed'', ''public'', ''early-stage'', ''early stage'', ''late-stage'',
      ''acquired'']"

text \<open>
  The body of the loop over \<open>details_parts[1:]\<close>, on the pair of the variables
  \<open>stage\<close> and \<open>investors\<close>.
\<close>

definition classify_part :: "string \<times> string \<Rightarrow> string \<Rightarrow> string \<times> string" where
  "classify_part acc part =
     (let pl = lower part
      in if any_in stage_keywords pl then (strip part, snd acc)
         else if is_in ''backed'' pl then (fst acc, strip part)
         else acc)"

text \<open>\<open>details_parts = [p.strip() for p in details.split(',')]\<close>\<close>

definition details_parts :: "string \<Rightarrow> string list" where
  "details_parts details = map strip (split_on CHR '','' details)"

text \<open>
  Lines 171 to 181: the values of \<open>industry\<close>, \<open>stage\<close> and \<open>investors\<close> when the
  loop has ended.
\<close>

definition parse_details :: "string \<Rightarrow> string \<times> string \<times> string" where
  "parse_details details =
     (let parts = details_parts details;
          industry' = (case parts of [] \<Rightarrow> [] | p # _ \<Rightarrow> p);
          acc = foldl classify_part ([], []) (drop 1 parts)
      in (industry', fst acc, snd acc))"

definition parse_job_line :: "string \<Rightarrow> parsed_line option" where
  "parse_job_line line0 =
     (let line = strip line0
      in if line = [] \<or> length line < 15 then None
         else
           let line = re_sub markdown_link (\<lambda>gs. case gs of [] \<Rightarrow> [] | g # _ \<Rightarrow> g) line
           in case re_alt line_pattern None line of
                Some ([g1, g2, g3, g4], _) \<Rightarrow>
                  (let company_name = strip g2;
                       details = strip g3;
                       location = strip g4
                   in if length company_name < 2 \<or> length company_name > 100 then None
                      else if length location > 100 then None
                      else if any_in skip_words (lower company_name) then None
                      else
                        (case parse_details details of
                           (industry', stage', investors') \<Rightarrow>
                             Some \<lparr>pl_company = re_sub trailing_commas (\<lambda>_. []) company_name,
                                   pl_industry = strip industry',
                                   pl_stage = strip stage',
                                   pl_location = strip (re_sub edge_slashes (\<lambda>_. []) location),
                                   pl_investors = strip investors'\<rparr>))
              | _ \<Rightarrow> None)"

subsection \<open>The segments that decide a field\<close>

text \<open>A segment that takes the stage branch, and one that takes the investors branch.\<close>

definition is_stage_part :: "string \<Rightarrow> bool" where
  "is_stage_part part = any_in stage_keywords (lower part)"

definition is_investors_part :: "string \<Rightarrow> bool" where
  "is_investors_part part = (\<not> is_stage_part part \<and> is_in ''backed'' (lower part))"

definition last_or_empty :: "string list \<Rightarrow> string" where
  "last_or_empty xs = (if xs = [] then [] else last xs)"


subsection \<open>The segments of a line\<close>

text \<open>
  The value of the variable \<open>details\<close> of a line that matches the pattern, and the list
  \<open>details_parts[1:]\<close> that the loop runs over (empty when the line does not match).
\<close>

definition matched_details :: "string \<Rightarrow> string option" where
  "matched_details line0 =
     (case re_alt line_pattern None
             (re_sub markdown_link (\<lambda>gs. case gs of [] \<Rightarrow> [] | g # _ \<Rightarrow> g) (strip line0)) of
        Some ([g1, g2, g3, g4], _) \<Rightarrow> Some (strip g3)
      | _ \<Rightarrow> None)"

definition loop_segments :: "string \<Rightarrow> string list" where
  "loop_segments line0 =
     (case matched_details line0 of
        None \<Rightarrow> []
      | Some details \<Rightarrow> drop 1 (details_parts details))"
section \<open>is_valid_location\<close>

text \<open>The list \<open>garbage_patterns\<close> of \<open>is_valid_location\<close>, in its order.\<close>

definition location_garbage_patterns :: "atom list list list" where
  "location_garbage_patterns =
     [[[Bol, Lit ''.'']], [[Bol, Lit ''@'']], [[Bol, Lit ''('']], [[Lit ''('', Eol]],
      [[Bol, Lit ''it was'']], [[Bol, Lit ''she is'']], [[Bol, Lit ''he is'']],
      [[Lit ''capital'']], [[Lit ''ventures'']], [[Lit ''partners'']], [[Lit ''collective'']],
      [[Lit ''group'', Eol]], [[Lit ''next'', Eol]], [[Lit ''fund'']],
      [[Lit ''respond to'']], [[Lit ''check out'']], [[Bol, Lit ''and '']], [[Bol, Lit ''or '']],
      [[Lit ''ceo '']], [[Lit ''founder'']], [[Lit ''announcement'']], [[Lit ''how it works'']],
      [[Lit ''jobs!'']], [[Lit ''for grabs'']],
      [[Lit ''series '', Class (\<lambda>c. c \<in> set ''abcdef'') Once False]],
      [[Lit ''stage'', Eol]], [[Lit ''seed'']], [[Lit ''acquired'']], [[Lit ''public)'']],
      [[Lit ''healthcare)'']], [[Lit ''fintech)'']], [[Lit ''saas)'']], [[Lit ''edtech)'']],
      [[Lit ''language learning'']], [[Lit ''contract)'']], [[Lit ''manager'']],
      [[Lit ''associate'']], [[Lit ''relations'']], [[Lit ''holdings'']], [[Lit ''institute'']],
      [[Lit ''company'']]]"

definition known_two_letter :: "string list" where
  "known_two_letter = [''SF'', ''LA'', ''NY'', ''DC'', ''UK'']"

definition is_valid_location :: "string \<Rightarrow> bool" where
  "is_valid_location loc =
     (if loc = [] \<or> length loc < 2 then False
      else
        let location_lower = lower loc
        in if list_ex (\<lambda>pattern. re_search pattern location_lower) location_garbage_patterns
           then False
           else if length loc > 60 then False
           else if length loc = 2 \<and> \<not> in_list (upper loc) known_two_letter then False
           else True)"

section \<open>normalize_location\<close>

text \<open>
  The patterns \<open>\s+\<close>, \<open>\.$\<close>, \<open>\s*,\s*$\<close> and \<open>\(.*?\)\<close>;
  \<open>^[/\s]+|[/\s]+$\<close> is \<open>edge_slashes\<close> above.
\<close>

definition ws_run :: "atom list list" where
  "ws_run = [[Class is_space Plus False]]"

definition trailing_period :: "atom list list" where
  "trailing_period = [[Lit ''.'', Eol]]"

definition trailing_comma :: "atom list list" where
  "trailing_comma = [[Class is_space Star False, Lit '','', Class is_space Star False, Eol]]"

definition paren_content :: "atom list list" where
  "paren_content = [[Lit ''('', Class (\<lambda>c. c \<noteq> newline) Lazy_Star False, Lit '')'']]"

subsection \<open>The gazetteer\<close>

text \<open>The alias lists of the metro areas.\<close>

definition sf_area :: "string list" where
  "sf_area =
     [''sf'', ''san francisco'', ''sf bay area'', ''bay area'', ''palo alto'',
      ''menlo park'', ''mountain view'', ''san jose'', ''san mateo'', ''redwood city'',
      ''oakland'', ''sunnyvale'', ''santa clara'', ''cupertino'', ''fremont'',
      ''burlingame'', ''san bruno'', ''san carlos'', ''foster city'', ''daly city'',
      ''millbrae'', ''berkeley'', ''emeryville'', ''alameda'', ''hayward'', ''san leandro'',
      ''milpitas'', ''santa cruz'', ''sausalito'', ''scotts valley'', ''pleasanton'',
      ''los altos'']"

definition nyc_area :: "string list" where
  "nyc_area =
     [''ny'', ''nyc'', ''new york'', ''new york city'', ''brooklyn'', ''manhattan'',
      ''queens'', ''jersey city'', ''hoboken'', ''williamsburg'', ''secaucus'']"

definition la_area :: "string list" where
  "la_area =
     [''la'', ''los angeles'', ''santa monica'', ''culver city'', ''pasadena'', ''venice'',
      ''playa vista'', ''long beach'', ''glendale'', ''burbank'', ''beverly hills'',
      ''west hollywood'', ''el segundo'', ''torrance'', ''sherman oaks'', ''costa mesa'',
      ''irvine'']"

definition boston_area :: "string list" where
  "boston_area =
     [''boston'', ''cambridge'', ''somerville'', ''waltham'', ''needham'', ''newton'',
      ''quincy'', ''natick'', ''woburn'']"

definition dc_area :: "string list" where
  "dc_area =
     [''dc'', ''washington'', ''washington dc'', ''mclean'', ''bethesda'', ''arlington'',
      ''alexandria'']"

definition denver_area :: "string list" where
  "denver_area =
     [''denver'', ''boulder'', ''broomfield'', ''arvada'', ''englewood'']"

definition seattle_area :: "string list" where
  "seattle_area =
     [''seattle'', ''bellevue'', ''redmond'', ''kirkland'', ''everett'', ''woodinville'']"

definition miami_area :: "string list" where
  "miami_area =
     [''miami'', ''fort lauderdale'', ''boca raton'', ''aventura'', ''west palm beach'',
      ''plantation'']"

definition chicago_area :: "string list" where
  "chicago_area =
     [''chicago'', ''evanston'', ''oak park'']"

text \<open>
  The chain \<open>if part_lower in sf_area ... elif ...\<close> in its order: each entry is the
  list tested and the tag appended when the test succeeds.
\<close>

definition gazetteer :: "(string list \<times> string) list" where
  "gazetteer =
     [(sf_area, ''SF''), (nyc_area, ''NYC''), (la_area, ''Los Angeles''),
      (boston_area, ''Boston''), (dc_area, ''DC''), (denver_area, ''Denver''),
      (seattle_area, ''Seattle''), (miami_area, ''Miami''), (chicago_area, ''Chicago''),
      ([''austin''], ''Austin''), ([''atlanta'', ''marietta'', ''norcross''], ''Atlanta''),
      ([''philadelphia'', ''philly''], ''Philadelphia''), ([''portland''], ''Portland''),
      ([''phoenix'', ''scottsdale'', ''tempe''], ''Phoenix''),
      ([''san diego'', ''carlsbad''], ''San Diego''),
      ([''dallas'', ''plano'', ''coppell''], ''Dallas''), ([''houston''], ''Houston''),
      ([''nashville''], ''Nashville''),
      ([''salt lake city'', ''lehi'', ''provo'', ''south jordan'', ''lindon''], ''Salt Lake City''),
      ([''raleigh'', ''durham'', ''morrisville''], ''Raleigh''),
      ([''detroit'', ''novi'', ''troy''], ''Detroit''),
      ([''minneapolis''], ''Minneapolis''), ([''pittsburgh''], ''Pittsburgh''),
      ([''columbus''], ''Columbus''), ([''charlotte''], ''Charlotte''),
      ([''baltimore''], ''Baltimore''), ([''milwaukee''], ''Milwaukee''),
      ([''st. louis'', ''st louis''], ''St. Louis''), ([''richmond''], ''Richmond''),
      ([''omaha''], ''Omaha''), ([''reno'', ''sparks''], ''Reno''),
      ([''toronto''], ''Toronto''), ([''montreal''], ''Montreal''),
      ([''vancouver''], ''Vancouver''), ([''calgary''], ''Calgary''),
      ([''ottawa''], ''Ottawa''), ([''canada'', ''canada)''], ''Canada''),
      ([''london''], ''London''), ([''paris''], ''Paris''), ([''berlin''], ''Berlin''),
      ([''singapore''], ''Singapore''), ([''stockholm''], ''Stockholm''),
      ([''dublin'', ''ireland''], ''Dublin''), ([''uk'', ''united kingdom)''], ''UK''),
      ([''australia''], ''Australia'')]"

text \<open>The first entry of the chain whose list holds the part; the final \<open>else\<close> drops the part.\<close>

definition gazetteer_lookup :: "string \<Rightarrow> string option" where
  "gazetteer_lookup part_lower =
     map_option snd (find (\<lambda>entry. in_list part_lower (fst entry)) gazetteer)"

text \<open>
  The body of the loop \<open>for part in parts\<close>: the tag appended to \<open>normalized_parts\<close>,
  or \<open>None\<close> where the loop continues without appending.
\<close>

definition normalize_part :: "string \<Rightarrow> string option" where
  "normalize_part part0 =
     (let part = strip (case split_on CHR '','' part0 of [] \<Rightarrow> [] | p # _ \<Rightarrow> p);
          part = strip (re_sub paren_content (\<lambda>_. []) part);
          part = strip (re_sub ws_run (\<lambda>_. '' '') part)
      in if part = [] \<or> length part > 30 then None
         else
           let part_lower = lower part
           in if is_in ''remote'' part_lower \<or> is_in ''anywhere'' part_lower \<or>
                 is_in ''global'' part_lower \<or> is_in ''worldwide'' part_lower \<or>
                 is_in ''various'' part_lower
              then Some ''Remote''
              else if is_in ''hybrid'' part_lower then None
              else if is_in ''us states'' part_lower \<or> is_in ''multiple states'' part_lower \<or>
                      ''united states'' = part_lower
              then Some ''Remote''
              else if is_in ''east coast'' part_lower \<or> is_in ''west coast'' part_lower
              then Some ''Remote''
              else gazetteer_lookup part_lower)"

text \<open>
  The loop that removes duplicates: a part is kept when it is non-empty and not in
  \<open>seen\<close>.
\<close>

fun unique_parts :: "string list \<Rightarrow> string list \<Rightarrow> string list" where
  "unique_parts seen [] = []"
| "unique_parts seen (part # parts) =
     (if part \<noteq> [] \<and> \<not> in_list part seen then part # unique_parts (part # seen) parts
      else unique_parts seen parts)"

definition normalize_location :: "string \<Rightarrow> string" where
  "normalize_location loc0 =
     (if loc0 = [] then loc0
      else
        let loc = strip loc0;
            loc = re_sub ws_run (\<lambda>_. '' '') loc;
            loc = re_sub edge_slashes (\<lambda>_. []) loc;
            loc = re_sub trailing_period (\<lambda>_. []) loc;
            loc = re_sub trailing_comma (\<lambda>_. []) loc;
            parts = map strip (split_on CHR ''/'' loc);
            normalized_parts = List.map_filter normalize_part parts;
            unique = unique_parts [] normalized_parts
        in if unique = [] then ''Remote'' else join '' / '' unique)"

text \<open>The tags that \<open>normalize_location\<close> can append: \<open>Remote\<close> and the tags of the gazetteer.\<close>

definition location_tags :: "string list" where
  "location_tags = ''Remote'' # map snd gazetteer"

subsection \<open>The shape of a tag\<close>

text \<open>
  A string in which every whitespace character is a single blank between two other
  characters or at the start.
\<close>

fun single_spaced :: "string \<Rightarrow> bool" where
  "single_spaced [] = True"
| "single_spaced [c] = (\<not> is_space c)"
| "single_spaced (c # d # ds) =
     ((is_space c \<longrightarrow> c = CHR '' '' \<and> \<not> is_space d) \<and> single_spaced (d # ds))"

text \<open>
  What the proofs use of a tag: it is not empty, starts with a character that is not
  whitespace, is single-spaced, has no slash and no comma, and does not end in a period.
\<close>

definition plain_tag :: "string \<Rightarrow> bool" where
  "plain_tag t =
     (t \<noteq> [] \<and> \<not> is_space (hd t) \<and> single_spaced t \<and>
      list_all (\<lambda>c. c \<noteq> CHR ''/'' \<and> c \<noteq> CHR '','') t \<and> last t \<noteq> CHR ''.'')"

section \<open>normalize_industry\<close>

text \<open>
  \<open>\bai\b|artificial intelligence|machine learning|deep learning|llm|\bml\b|computer vision|nlp\<close>
\<close>

definition ai_pattern :: "atom list list" where
  "ai_pattern =
     [[Word_Boundary, Lit ''ai'', Word_Boundary], [Lit ''artificial intelligence''],
      [Lit ''machine learning''], [Lit ''deep learning''], [Lit ''llm''],
      [Word_Boundary, Lit ''ml'', Word_Boundary], [Lit ''computer vision''], [Lit ''nlp'']]"

text \<open>The dict \<open>mappings\<close>; its keys are pairwise different.\<close>

definition mappings :: "(string \<times> string) list" where
  "mappings =
     [(''web3'', ''Web3''), (''web 3'', ''Web3''), (''blockchain'', ''Web3''),
      (''blockchains'', ''Web3''), (''crypto'', ''Web3''), (''cryptocurrency'', ''Web3''),
      (''nft'', ''Web3''), (''dao'', ''Web3''), (''saas'', ''SaaS''),
      (''software'', ''SaaS''), (''b2b saas'', ''SaaS''), (''enterprise saas'', ''SaaS''),
      (''enterprise software'', ''SaaS''), (''software development'', ''Developer Tools''),
      (''data'', ''Data''), (''analytics'', ''Data''), (''big data'', ''Data''),
      (''data analytics'', ''Data''), (''business intelligence'', ''Data''),
      (''infrastructure'', ''Infrastructure''), (''devtools'', ''Developer Tools''),
      (''developer tools'', ''Developer Tools''), (''dev tools'', ''Developer Tools''),
      (''api'', ''Developer Tools''), (''apis'', ''Developer Tools''),
      (''robotics'', ''Robotics''), (''hardware'', ''Hardware''), (''iot'', ''Hardware''),
      (''semiconductor'', ''Hardware''), (''semiconductors'', ''Hardware''),
      (''climate'', ''Climate''), (''climate tech'', ''Climate''),
      (''climatetech'', ''Climate''), (''cleantech'', ''Climate''),
      (''greentech'', ''Climate''), (''sustainability'', ''Climate''),
      (''energy'', ''Energy''), (''marketplace'', ''E-commerce''),
      (''marketplaces'', ''E-commerce''), (''consumer'', ''Consumer''),
      (''consumer goods'', ''Consumer''), (''cpg'', ''Consumer''),
      (''social'', ''Social Media''), (''social media'', ''Social Media''),
      (''social network'', ''Social Media''), (''media'', ''Media''),
      (''digital media'', ''Media''), (''entertainment'', ''Media''),
      (''gaming'', ''Gaming''), (''games'', ''Gaming''), (''esports'', ''Gaming''),
      (''e-sports'', ''Gaming''), (''sports'', ''Sports''),
      (''food'', ''Food & Beverage''), (''food tech'', ''Food & Beverage''),
      (''foodtech'', ''Food & Beverage''), (''agriculture'', ''Agriculture''),
      (''agtech'', ''Agriculture''), (''construction'', ''Manufacturing''),
      (''manufacturing'', ''Manufacturing''), (''automotive'', ''Automotive''),
      (''electric vehicle'', ''Automotive''), (''electric vehicles'', ''Automotive''),
      (''ev'', ''Automotive''), (''transportation'', ''Travel''),
      (''mobility'', ''Travel''), (''travel'', ''Travel''), (''hospitality'', ''Travel''),
      (''government'', ''Government''), (''govtech'', ''Government''),
      (''nonprofit'', ''Nonprofit''), (''non-profit'', ''Nonprofit''),
      (''venture capital'', ''VC''), (''vc'', ''VC''), (''venture fund'', ''VC''),
      (''investing'', ''VC''), (''investments'', ''VC''), (''pet'', ''Consumer''),
      (''pets'', ''Consumer''), (''pet care'', ''Consumer''), (''fashion'', ''Consumer''),
      (''apparel'', ''Consumer''), (''beauty'', ''Consumer''),
      (''wellness'', ''Healthcare''), (''fitness'', ''Healthcare''),
      (''mental health'', ''Mental Health''), (''dental'', ''Healthcare''),
      (''veterinary'', ''Healthcare''), (''legal'', ''Legal''), (''legaltech'', ''Legal''),
      (''sales'', ''SaaS''), (''crm'', ''SaaS''), (''database'', ''Data''),
      (''databases'', ''Data''), (''deeptech'', ''Hardware''),
      (''deep tech'', ''Hardware''), (''quantum computing'', ''Quantum Computing''),
      (''quantum'', ''Quantum Computing''), (''design'', ''Consumer''),
      (''community'', ''Social Media''), (''communities'', ''Social Media''),
      (''messaging'', ''Social Media''), (''dating'', ''Social Media''),
      (''creator economy'', ''Media''), (''enterprise'', ''SaaS''), (''b2b'', ''SaaS''),
      (''consulting'', ''Services''), (''agency'', ''Services''),
      (''services'', ''Services''), (''operations'', ''SaaS''), (''compliance'', ''SaaS''),
      (''procurement'', ''SaaS''), (''accounting'', ''SaaS''),
      (''home services'', ''Services''), (''home'', ''Consumer''),
      (''internet'', ''SaaS''), (''platform'', ''SaaS''), (''tech'', ''SaaS''),
      (''technology'', ''SaaS''), (''information technology'', ''SaaS''),
      (''it services'', ''SaaS''), (''voice'', ''AI''), (''speech'', ''AI''),
      (''vr'', ''Hardware''), (''ar'', ''Hardware''),
      (''augmented reality'', ''Hardware''), (''virtual reality'', ''Hardware''),
      (''ar/vr'', ''Hardware''), (''vr/xr'', ''Hardware''), (''mobile'', ''SaaS''),
      (''mobile apps'', ''SaaS''), (''apps'', ''SaaS''), (''website'', ''SaaS''),
      (''websites'', ''SaaS''), (''seed'', ''''), (''pre-seed'', ''''),
      (''pre seed'', ''''), (''seed stage'', ''''), (''seed-stage'', ''''),
      (''series a'', ''''), (''series b'', ''''), (''series c'', ''''),
      (''series d'', ''''), (''series e'', ''''), (''series f'', ''''),
      (''series g'', ''''), (''series h'', ''''), (''early-stage'', ''''),
      (''early stage'', ''''), (''late-stage'', ''''), (''late stage'', ''''),
      (''later-stage'', ''''), (''yc'', ''''), (''y combinator'', ''''),
      (''public'', ''''), (''acquired'', ''''), (''pe-backed'', ''''),
      (''startup studio'', ''''), (''accelerator'', ''''), (''incubator'', ''''),
      (''holding company'', ''''), (''remote'', '''')]"

text \<open>
  The five substitutions before the final \<open>return\<close>: \<open>\bAI\b\<close>, \<open>\bSaaS\b\<close>,
  \<open>\bWeb3\b\<close>, \<open>\bB2B\b\<close> and \<open>\bB2C\b\<close> under IGNORECASE, each replaced by its
  own spelling.
\<close>

definition word_ignorecase :: "string \<Rightarrow> atom list list" where
  "word_ignorecase w = [Word_Boundary # lit_ignorecase w @ [Word_Boundary]]"

definition standardize_capitalization :: "string \<Rightarrow> string" where
  "standardize_capitalization s =
     (let s = re_sub (word_ignorecase ''AI'') (\<lambda>_. ''AI'') s;
          s = re_sub (word_ignorecase ''SaaS'') (\<lambda>_. ''SaaS'') s;
          s = re_sub (word_ignorecase ''Web3'') (\<lambda>_. ''Web3'') s;
          s = re_sub (word_ignorecase ''B2B'') (\<lambda>_. ''B2B'') s
      in re_sub (word_ignorecase ''B2C'') (\<lambda>_. ''B2C'') s)"

text \<open>
  The result is \<open>None\<close> where the Python returns \<open>None\<close> (a key of \<open>mappings\<close>
  with an empty value). The empty input is returned as it is.
\<close>

definition normalize_industry :: "string \<Rightarrow> string option" where
  "normalize_industry industry0 =
     (if industry0 = [] then Some industry0
      else
        let ind = strip industry0;
            industry_lower = lower ind
        in
          if any_in [''health'', ''medtech'', ''medical'', ''clinical'', ''behavioral health'',
                     ''wellness'', ''fitness'', ''hospital'', ''pharma'', ''therapeutic'',
                     ''biopharma'', ''drug development''] industry_lower
          then (if is_in ''mental health'' industry_lower then Some ''Mental Health''
                else if is_in ''dental'' industry_lower \<or> is_in ''dentis'' industry_lower
                then Some ''Healthcare''
                else if is_in ''veterinary'' industry_lower \<or> is_in ''vet '' industry_lower
                then Some ''Healthcare''
                else Some ''Healthcare'')
          else if re_search ai_pattern industry_lower
          then (if is_in ''robot'' industry_lower then Some ''Robotics'' else Some ''AI'')
          else if any_in [''fintech'', ''financial'', ''banking'', ''payment'', ''wealth'',
                          ''crypto'', ''bitcoin'', ''trading'', ''investing''] industry_lower
          then (if is_in ''crypto'' industry_lower \<or> is_in ''blockchain'' industry_lower \<or>
                   is_in ''web3'' industry_lower \<or> is_in ''web 3'' industry_lower
                then Some ''Web3'' else Some ''Fintech'')
          else if any_in [''biotech'', ''bio tech'', ''life science'', ''bioinformatics'',
                          ''genetic'', ''biopharm''] industry_lower
          then Some ''Biotech''
          else if is_in ''commerce'' industry_lower \<or> is_in ''retail'' industry_lower \<or>
                  is_in ''marketplace'' industry_lower
          then Some ''E-commerce''
          else if is_in ''edtech'' industry_lower \<or> is_in ''education'' industry_lower \<or>
                  is_in ''e-learning'' industry_lower \<or> is_in ''learning'' industry_lower
          then Some ''Edtech''
          else if is_in ''insur'' industry_lower
          then Some ''Insurtech''
          else if is_in ''security'' industry_lower \<or> is_in ''cybersec'' industry_lower \<or>
                  ''cyber'' = industry_lower
          then Some ''Cybersecurity''
          else if is_in ''marketing'' industry_lower \<or> is_in ''martech'' industry_lower \<or>
                  is_in ''adtech'' industry_lower \<or> is_in ''advertising'' industry_lower
          then Some ''Marketing''
          else if any_in [''logistic'', ''supply chain'', ''shipping'', ''delivery'', ''fleet'']
                    industry_lower
          then Some ''Logistics''
          else if is_in ''real estate'' industry_lower \<or> is_in ''proptech'' industry_lower \<or>
                  is_in ''property'' industry_lower
          then Some ''Real Estate''
          else if any_in [''hrtech'', ''hr tech'', ''recruiting'', ''recruitment'', ''talent'',
                          ''human resources'', ''hiring'', ''staffing''] industry_lower
          then Some ''HRTech''
          else if is_in ''legal'' industry_lower \<or> is_in ''legaltech'' industry_lower \<or>
                  is_in ''law'' industry_lower
          then Some ''Legal''
          else if any_in [''climate'', ''clean energy'', ''cleantech'', ''greentech'',
                          ''renewable'', ''solar'', ''sustainable energy''] industry_lower
          then Some ''Climate''
          else if is_in ''energy'' industry_lower \<and> \<not> is_in ''renewable'' industry_lower \<and>
                  \<not> is_in ''clean'' industry_lower
          then Some ''Energy''
          else if any_in [''food'', ''restaurant'', ''beverage'', ''meal'', ''catering'',
                          ''grocery''] industry_lower
          then Some ''Food & Beverage''
          else if any_in [''defense'', ''aerospace'', ''space'', ''satellite''] industry_lower
          then (if is_in ''space'' industry_lower \<or> is_in ''satellite'' industry_lower \<or>
                   is_in ''aerospace'' industry_lower
                then Some ''Aerospace'' else Some ''Defense'')
          else if any_in [''travel'', ''hospitality'', ''hotel'', ''ride'', ''mobility'',
                          ''transportation''] industry_lower
          then Some ''Travel''
          else if any_in [''media'', ''entertainment'', ''video'', ''streaming'', ''content'',
                          ''publishing'', ''podcast''] industry_lower
          then (if is_in ''gaming'' industry_lower \<or> is_in ''game'' industry_lower \<or>
                   is_in ''esport'' industry_lower
                then Some ''Gaming''
                else if is_in ''social'' industry_lower then Some ''Social Media''
                else Some ''Media'')
          else if any_in [''developer'', ''devtools'', ''dev tools'', ''devops'', ''api'']
                    industry_lower
          then Some ''Developer Tools''
          else if any_in [''infrastructure'', ''cloud'', ''data center'', ''datacenter'',
                          ''edge computing''] industry_lower
          then Some ''Infrastructure''
          else if any_in [''hardware'', ''iot'', ''semiconductor'', ''electronics'', ''sensor'',
                          ''wearable''] industry_lower
          then Some ''Hardware''
          else if is_in ''automat'' industry_lower \<or> is_in ''robot'' industry_lower \<or>
                  is_in ''autonomous'' industry_lower \<or> is_in ''drone'' industry_lower
          then Some ''Robotics''
          else if is_in ''manufacturing'' industry_lower \<or>
                  is_in ''construction'' industry_lower \<or> is_in ''industrial'' industry_lower
          then Some ''Manufacturing''
          else if is_in ''government'' industry_lower \<or> is_in ''govtech'' industry_lower \<or>
                  is_in ''civic'' industry_lower \<or> ''public'' = industry_lower
          then Some ''Government''
          else if is_in ''nonprofit'' industry_lower \<or> is_in ''non-profit'' industry_lower \<or>
                  is_in ''philanthrop'' industry_lower \<or> is_in ''charity'' industry_lower
          then Some ''Nonprofit''
          else if is_in ''agri'' industry_lower \<or> is_in ''agtech'' industry_lower \<or>
                  is_in ''farm'' industry_lower
          then Some ''Agriculture''
          else if is_in ''future of work'' industry_lower \<or>
                  is_in ''collaboration'' industry_lower \<or>
                  is_in ''productivity'' industry_lower \<or> is_in ''workflow'' industry_lower
          then Some ''Productivity''
          else if is_in ''quantum'' industry_lower
          then Some ''Quantum Computing''
          else
            (case dict_get mappings industry_lower of
               Some normalized \<Rightarrow> if normalized = [] then None else Some normalized
             | None \<Rightarrow> Some (standardize_capitalization ind)))"

text \<open>
  The canonical tags: the literals returned by the pattern rules in the order of the
  source, then the values of \<open>mappings\<close> that no pattern rule returns.
\<close>

definition industry_tags :: "string list" where
  "industry_tags =
     [''Mental Health'', ''Healthcare'', ''Robotics'', ''AI'', ''Web3'', ''Fintech'',
      ''Biotech'', ''E-commerce'', ''Edtech'', ''Insurtech'', ''Cybersecurity'', ''Marketing'',
      ''Logistics'', ''Real Estate'', ''HRTech'', ''Legal'', ''Climate'', ''Energy'',
      ''Food & Beverage'', ''Aerospace'', ''Defense'', ''Travel'', ''Gaming'', ''Social Media'',
      ''Media'', ''Developer Tools'', ''Infrastructure'', ''Hardware'', ''Manufacturing'',
      ''Government'', ''Nonprofit'', ''Agriculture'', ''Productivity'', ''Quantum Computing'',
      ''SaaS'', ''Data'', ''Consumer'', ''Sports'', ''Automotive'', ''VC'', ''Services'']"

section \<open>Characters bit by bit\<close>

text \<open>
  The character functions above are stated on code points. For evaluation the same
  functions are given on the eight bits of a character, lowest bit first.
\<close>

lemma is_space_code [code]:
  "is_space (Char b0 b1 b2 b3 b4 b5 b6 b7) =
     (if b7 then \<not> b6 \<and> \<not> b4 \<and> \<not> b3 \<and> \<not> b1 \<and> ((b5 \<and> \<not> b2 \<and> \<not> b0) \<or> (\<not> b5 \<and> b2 \<and> b0))
      else \<not> b6 \<and>
        (if b5 then \<not> b4 \<and> \<not> b3 \<and> \<not> b2 \<and> \<not> b1 \<and> \<not> b0
         else if b4 then b3 \<and> b2
         else b3 \<and> ((\<not> b2 \<and> (b1 \<or> b0)) \<or> (b2 \<and> \<not> b1))))"
  by (cases b0; cases b1; cases b2; cases b3; cases b4; cases b5; cases b6; cases b7)
     (simp_all add: is_space_def)

lemma lower_char_code [code]:
  "lower_char (Char b0 b1 b2 b3 b4 b5 b6 b7) =
     (if b6 \<and> \<not> b5 \<and>
         (if b7 then \<not> (b4 \<and> b2 \<and> b1 \<and> b0)
          else (b4 \<or> b3 \<or> b2 \<or> b1 \<or> b0) \<and> \<not> (b4 \<and> b3 \<and> (b2 \<or> (b1 \<and> b0))))
      then Char b0 b1 b2 b3 b4 True b6 b7 else Char b0 b1 b2 b3 b4 b5 b6 b7)"
  by (cases b0; cases b1; cases b2; cases b3; cases b4; cases b5; cases b6; cases b7)
     (simp_all add: lower_char_def char_of_def bit_0)

lemma upper_char_code [code]:
  "upper_char (Char b0 b1 b2 b3 b4 b5 b6 b7) =
     (if b6 \<and> b5 \<and>
         (if b7 then \<not> (b4 \<and> b2 \<and> b1 \<and> b0)
          else (b4 \<or> b3 \<or> b2 \<or> b1 \<or> b0) \<and> \<not> (b4 \<and> b3 \<and> (b2 \<or> (b1 \<and> b0))))
      then [Char b0 b1 b2 b3 b4 False b6 b7]
      else if b7 \<and> b6 \<and> \<not> b5 \<and> b4 \<and> b3 \<and> b2 \<and> b1 \<and> b0 then ''SS''
      else [Char b0 b1 b2 b3 b4 b5 b6 b7])"
  by (cases b0; cases b1; cases b2; cases b3; cases b4; cases b5; cases b6; cases b7)
     (simp_all add: upper_char_def char_of_def bit_0)

lemma is_word_code [code]:
  "is_word (Char b0 b1 b2 b3 b4 b5 b6 b7) =
     (if b7
      then (if b6 then \<not> (b4 \<and> \<not> b3 \<and> b2 \<and> b1 \<and> b0)
            else b5 \<and>
              (if b4 then (\<not> b3 \<and> \<not> b2 \<and> b1) \<or> (\<not> b3 \<and> b2 \<and> \<not> b1 \<and> b0) \<or>
                          (b3 \<and> \<not> b2 \<and> (b1 \<noteq> b0)) \<or> (b3 \<and> b2 \<and> \<not> (b1 \<and> b0))
               else b3 \<and> \<not> b2 \<and> b1 \<and> \<not> b0))
      else if b6
        then ((b4 \<or> b3 \<or> b2 \<or> b1 \<or> b0) \<and> \<not> (b4 \<and> b3 \<and> (b2 \<or> (b1 \<and> b0)))) \<or>
             (\<not> b5 \<and> b4 \<and> b3 \<and> b2 \<and> b1 \<and> b0)
        else b5 \<and> b4 \<and> (\<not> b3 \<or> (\<not> b2 \<and> \<not> b1)))"
  by (cases b0; cases b1; cases b2; cases b3; cases b4; cases b5; cases b6; cases b7)
     (simp_all add: is_word_def)

section \<open>Substring tests\<close>

lemma starts_with_prefix: "starts_with p s = prefix p s"
  by (induction p s rule: starts_with.induct) simp_all

lemma is_in_code [code]:
  "is_in n [] = (n = [])"
  "is_in n (y # ys) = (if starts_with n (y # ys) then True else is_in n ys)"
  by (simp_all add: is_in_def starts_with_prefix sublist_Cons_right)

lemma starts_with_same_length: "length a = length b \<Longrightarrow> starts_with a b = (a = b)"
  by (induction a b rule: starts_with.induct) auto

lemma string_eq_code: "(a = b) = (if length a = length b then starts_with a b else False)"
  by (auto simp: starts_with_same_length)

lemma in_list_code [code]:
  "in_list x [] = False"
  "in_list x (y # ys) = (if starts_with x y then (if starts_with y x then True else in_list x ys)
                         else in_list x ys)"
  by (auto simp: in_list_def starts_with_prefix dest: prefix_order.antisym)

lemma dict_get_code [code]:
  "dict_get [] k = None"
  "dict_get (p # ps) k =
     (if starts_with k (fst p) then (if starts_with (fst p) k then Some (snd p) else dict_get ps k)
      else dict_get ps k)"
  by (auto simp: dict_get_def starts_with_prefix dest: prefix_order.antisym)

section \<open>Properties of deduplicate_companies\<close>

subsection \<open>One fold step, read through the map\<close>

lemma map_of_merge_step:
  "map_of (merge_step m c) =
     (map_of m)(company_key c \<mapsto>
        (case map_of m (company_key c) of None \<Rightarrow> new_record c | Some e \<Rightarrow> merge_existing c e))"
  by (simp add: merge_step_def Let_def update_conv' split: option.split)

lemma backfill_keeps [simp]:
  "editions (backfill c r) = editions r"
  "latest_edition (backfill c r) = latest_edition r"
  "latest_date (backfill c r) = latest_date r"
  "role_categories (backfill c r) = role_categories r"
  by (simp_all add: backfill_def Let_def)

lemma editions_merge_existing:
  "editions (merge_existing c r) =
     (if edition c \<in> set (editions r) then editions r else editions r @ [edition c])"
  by (simp add: merge_existing_def add_category_def promote_def add_edition_def
      split: option.split)

lemma latest_edition_merge_existing:
  "latest_edition (merge_existing c r) = max (latest_edition r) (edition c)"
  by (simp add: merge_existing_def add_category_def promote_def add_edition_def
      split: option.split)

lemma role_categories_merge_existing:
  "set (role_categories (merge_existing c r)) =
     set (role_categories r) \<union> set_option (truthy_category (role_category c))"
  by (auto simp: merge_existing_def add_category_def promote_def add_edition_def
      split: option.splits)

lemma distinct_keys_step: "distinct (map fst m) \<Longrightarrow> distinct (map fst (merge_step m c))"
  by (simp add: merge_step_def Let_def distinct_update split: option.split)

lemma distinct_keys_foldl:
  "distinct (map fst m) \<Longrightarrow> distinct (map fst (foldl merge_step m xs))"
  by (induction xs arbitrary: m) (simp_all add: distinct_keys_step)

text \<open>The output list holds exactly the values of the map.\<close>

lemma set_deduplicate_companies:
  "set (deduplicate_companies xs) = snd ` set (fold_companies xs)"
  by (simp add: deduplicate_companies_def)

lemma deduplicate_companies_lookup:
  assumes "r \<in> set (deduplicate_companies xs)"
  shows "\<exists>k. map_of (fold_companies xs) k = Some r"
proof -
  from assms obtain k where "(k, r) \<in> set (fold_companies xs)"
    by (auto simp: set_deduplicate_companies)
  moreover have "distinct (map fst (fold_companies xs))"
    by (simp add: fold_companies_def distinct_keys_foldl)
  ultimately have "map_of (fold_companies xs) k = Some r" by simp
  then show ?thesis ..
qed

subsection \<open>The latest edition is the maximum of the edition list\<close>

lemma latest_is_max_new: "latest_is_max (new_record c)"
  by (simp add: latest_is_max_def new_record_def)

lemma latest_is_max_merge:
  assumes "latest_is_max r"
  shows "latest_is_max (merge_existing c r)"
proof -
  from assms have ne: "editions r \<noteq> []" and mx: "latest_edition r = Max (set (editions r))"
    by (simp_all add: latest_is_max_def)
  show ?thesis
  proof (cases "edition c \<in> set (editions r)")
    case True
    then have "edition c \<le> Max (set (editions r))" by simp
    with True ne mx show ?thesis
      by (simp add: latest_is_max_def editions_merge_existing latest_edition_merge_existing)
  next
    case False
    with ne mx show ?thesis
      by (simp add: latest_is_max_def editions_merge_existing latest_edition_merge_existing
          max.commute)
  qed
qed

lemma latest_is_max_step:
  assumes "\<forall>k r. map_of m k = Some r \<longrightarrow> latest_is_max r"
  shows "\<forall>k r. map_of (merge_step m c) k = Some r \<longrightarrow> latest_is_max r"
  using assms
  by (auto simp: map_of_merge_step latest_is_max_new latest_is_max_merge
      split: option.splits if_splits)

lemma latest_is_max_foldl:
  assumes "\<forall>k r. map_of m k = Some r \<longrightarrow> latest_is_max r"
  shows "\<forall>k r. map_of (foldl merge_step m xs) k = Some r \<longrightarrow> latest_is_max r"
  using assms
proof (induction xs arbitrary: m)
  case Nil
  then show ?case by simp
next
  case (Cons x xs)
  show ?case
    unfolding foldl_Cons
    by (rule Cons.IH) (rule latest_is_max_step [OF Cons.prems])
qed

text \<open>
  Claim C4. After every fold step of \<open>deduplicate_companies\<close>, that is after the first
  \<open>n\<close> listings of any input for any \<open>n\<close>, every record of the identity map has a
  non-empty edition list, and its \<open>latest_edition\<close> is the maximum of that list.
\<close>

theorem latest_edition_is_max_of_editions:
  "map_of (fold_companies (take n companies)) k = Some r \<Longrightarrow>
     editions r \<noteq> [] \<and> latest_edition r = Max (set (editions r))"
  using latest_is_max_foldl [of "[]" "take n companies"]
  by (simp add: fold_companies_def latest_is_max_def)

theorem latest_edition_is_max_of_editions_witness:
  "map_of (fold_companies (take 2 [acme_12, acme_5, dup_a])) ''acme health'' =
     Some \<lparr>cc_company = ''Acme Health'', cc_industry = ''Healthcare'', cc_stage = ''Series C'',
       cc_location = ''NYC'', cc_investors = '''', editions = [12, 5], latest_edition = 12,
       latest_date = ''Mar 1, 2024'', role_categories = [''VC'', ''BizOps''],
       description = ''''\<rparr> \<and>
   [12, 5] \<noteq> ([] :: int list) \<and> (12 :: int) = Max (set [12, 5])"
proof -
  have h: "map_of (fold_companies (take 2 [acme_12, acme_5, dup_a])) ''acme health'' =
     Some \<lparr>cc_company = ''Acme Health'', cc_industry = ''Healthcare'', cc_stage = ''Series C'',
       cc_location = ''NYC'', cc_investors = '''', editions = [12, 5], latest_edition = 12,
       latest_date = ''Mar 1, 2024'', role_categories = [''VC'', ''BizOps''],
       description = ''''\<rparr>"
    by code_simp
  from latest_edition_is_max_of_editions [OF h] h show ?thesis by simp
qed

text \<open>The same invariant on the records of the returned list.\<close>

lemma deduplicate_companies_latest_is_max:
  assumes "r \<in> set (deduplicate_companies xs)"
  shows "latest_edition r = Max (set (editions r))"
proof -
  from deduplicate_companies_lookup [OF assms]
  obtain k where "map_of (foldl merge_step [] xs) k = Some r"
    by (auto simp: fold_companies_def)
  with latest_is_max_foldl [of "[]" xs] show ?thesis
    by (simp add: latest_is_max_def)
qed

subsection \<open>A sighting that is not newer\<close>

lemma merge_existing_frame:
  assumes "edition c \<le> latest_edition r"
  shows "cc_company (merge_existing c r) = cc_company r"
    and "cc_industry (merge_existing c r) = cc_industry r"
    and "cc_stage (merge_existing c r) = cc_stage r"
    and "cc_location (merge_existing c r) = cc_location r"
    and "cc_investors (merge_existing c r) = cc_investors r"
    and "latest_edition (merge_existing c r) = latest_edition r"
    and "latest_date (merge_existing c r) = latest_date r"
    and "description (merge_existing c r) = description r"
  using assms
  by (simp_all add: merge_existing_def add_category_def promote_def add_edition_def
      split: option.split)

text \<open>
  Claim C6. When the map stores a record under the key of a listing and the listing's
  edition is not strictly greater than the stored \<open>latest_edition\<close>, the fold step
  leaves \<open>company\<close>, \<open>industry\<close>, \<open>stage\<close>, \<open>location\<close>, \<open>investors\<close>,
  \<open>latest_edition\<close> and \<open>latest_date\<close> (and \<open>description\<close>) of that record as they
  were, so that only \<open>editions\<close> and \<open>role_categories\<close> can differ; the records
  under all other keys are untouched.
\<close>

theorem not_newer_sighting_frame:
  assumes "map_of m (company_key c) = Some r" and "edition c \<le> latest_edition r"
  shows "(\<exists>r'. map_of (merge_step m c) (company_key c) = Some r' \<and>
           cc_company r' = cc_company r \<and> cc_industry r' = cc_industry r \<and>
           cc_stage r' = cc_stage r \<and> cc_location r' = cc_location r \<and>
           cc_investors r' = cc_investors r \<and> latest_edition r' = latest_edition r \<and>
           latest_date r' = latest_date r \<and> description r' = description r) \<and>
         (\<forall>k. k \<noteq> company_key c \<longrightarrow> map_of (merge_step m c) k = map_of m k)"
proof -
  have "map_of (merge_step m c) (company_key c) = Some (merge_existing c r)"
    using assms(1) by (simp add: map_of_merge_step)
  then show ?thesis
    using merge_existing_frame [OF assms(2)] by (simp add: map_of_merge_step)
qed

theorem not_newer_sighting_frame_witness:
  "map_of (fold_companies [acme_12]) (company_key acme_5) = Some (new_record acme_12) \<and>
   edition acme_5 \<le> latest_edition (new_record acme_12) \<and>
   (\<exists>r'. map_of (merge_step (fold_companies [acme_12]) acme_5) (company_key acme_5) = Some r' \<and>
      cc_company r' = ''Acme Health'' \<and> cc_industry r' = ''Healthcare'' \<and>
      cc_stage r' = ''Series C'' \<and> cc_location r' = ''NYC'' \<and> cc_investors r' = '''' \<and>
      latest_edition r' = 12 \<and> latest_date r' = ''Mar 1, 2024'')"
proof -
  have h1: "map_of (fold_companies [acme_12]) (company_key acme_5) = Some (new_record acme_12)"
    by code_simp
  have h2: "edition acme_5 \<le> latest_edition (new_record acme_12)"
    by code_simp
  have v: "cc_company (new_record acme_12) = ''Acme Health''"
    "cc_industry (new_record acme_12) = ''Healthcare''"
    "cc_stage (new_record acme_12) = ''Series C''"
    "cc_location (new_record acme_12) = ''NYC''"
    "cc_investors (new_record acme_12) = ''''"
    "latest_edition (new_record acme_12) = 12"
    "latest_date (new_record acme_12) = ''Mar 1, 2024''"
    by (simp_all add: new_record_def acme_12_def)
  from not_newer_sighting_frame [OF h1 h2] h1 h2 show ?thesis
    unfolding v by blast
qed

subsection \<open>No validation inside the merge\<close>

lemma holds_edition_step_new: "holds_edition (merge_step m c) (company_key c) (edition c)"
  by (simp add: holds_edition_def map_of_merge_step editions_merge_existing new_record_def
      split: option.split)

lemma holds_edition_step_keep:
  "holds_edition m k e \<Longrightarrow> holds_edition (merge_step m c) k e"
  by (auto simp: holds_edition_def map_of_merge_step editions_merge_existing
      split: option.splits)

lemma holds_edition_foldl_keep:
  "holds_edition m k e \<Longrightarrow> holds_edition (foldl merge_step m xs) k e"
  by (induction xs arbitrary: m) (simp_all add: holds_edition_step_keep)

lemma holds_edition_foldl:
  "c \<in> set xs \<Longrightarrow> holds_edition (foldl merge_step m xs) (company_key c) (edition c)"
proof (induction xs arbitrary: m)
  case Nil
  then show ?case by simp
next
  case (Cons x xs)
  show ?case
  proof (cases "c = x")
    case True
    then show ?thesis
      by (simp add: holds_edition_foldl_keep holds_edition_step_new)
  next
    case False
    with Cons.prems have "c \<in> set xs" by simp
    then show ?thesis by (simp add: Cons.IH)
  qed
qed

text \<open>
  Claim C3, as stated, fails: \<open>deduplicate_companies\<close> has no check of the edition number
  or of the key. A listing whose company name is blank and whose edition is 0 is stored
  under the empty key with edition 0.
\<close>

theorem invalid_listing_is_inserted:
  "fold_companies [\<lparr>company = ''  '', industry = ''AI'', stage = '''', location = ''SF'',
        investors = '''', edition = 0, date = '''', role_category = None\<rparr>]
   = [('''', \<lparr>cc_company = ''  '', cc_industry = ''AI'', cc_stage = '''', cc_location = ''SF'',
        cc_investors = '''', editions = [0], latest_edition = 0, latest_date = '''',
        role_categories = [], description = ''''\<rparr>)]"
  by code_simp

text \<open>
  Claim C3, amended. The merge step validates nothing: every input listing, whatever its
  edition number and its key, is folded in, so that after the fold the map stores a
  record under the listing's key and that record lists the listing's edition.
\<close>

theorem every_listing_is_folded_in:
  "c \<in> set companies \<Longrightarrow>
     \<exists>r. map_of (fold_companies companies) (company_key c) = Some r \<and>
         edition c \<in> set (editions r)"
  using holds_edition_foldl [of c companies "[]"]
  by (simp add: fold_companies_def holds_edition_def split: option.splits)

theorem every_listing_is_folded_in_witness:
  "blank_0 \<in> set [acme_5, blank_0] \<and> company_key blank_0 = '''' \<and> edition blank_0 = 0 \<and>
   (\<exists>r. map_of (fold_companies [acme_5, blank_0]) '''' = Some r \<and> 0 \<in> set (editions r))"
proof -
  have h: "blank_0 \<in> set [acme_5, blank_0]" by simp
  have k: "company_key blank_0 = ''''" by code_simp
  have e: "edition blank_0 = 0" by (simp add: blank_0_def)
  from every_listing_is_folded_in [OF h] h k e show ?thesis by simp
qed

subsection \<open>Duplicates within one edition\<close>

lemma ed_view_step:
  "ed_view (merge_step m c) k =
     (if k = company_key c
      then Some (case ed_view m k of
                   None \<Rightarrow> ([edition c], edition c)
                 | Some (es, l) \<Rightarrow> (if edition c \<in> set es then es else es @ [edition c],
                                   max l (edition c)))
      else ed_view m k)"
  by (simp add: ed_view_def map_of_merge_step editions_merge_existing
      latest_edition_merge_existing new_record_def split: option.split)

lemma ed_view_step_cong:
  assumes "ed_view m = ed_view m'" "company_key c = company_key c'" "edition c = edition c'"
  shows "ed_view (merge_step m c) = ed_view (merge_step m' c')"
  using assms by (auto simp: ed_view_step fun_eq_iff split: option.splits prod.splits)

lemma ed_view_foldl_cong:
  assumes "map (\<lambda>c. (company_key c, edition c)) xs = map (\<lambda>c. (company_key c, edition c)) ys"
    and "ed_view m = ed_view m'"
  shows "ed_view (foldl merge_step m xs) = ed_view (foldl merge_step m' ys)"
  using assms
proof (induction xs arbitrary: ys m m')
  case Nil
  then show ?case by simp
next
  case (Cons x xs)
  then obtain y ys' where ys: "ys = y # ys'" by (cases ys) auto
  with Cons.prems have k: "company_key x = company_key y" and e: "edition x = edition y"
    and r: "map (\<lambda>c. (company_key c, edition c)) xs = map (\<lambda>c. (company_key c, edition c)) ys'"
    by simp_all
  have "ed_view (merge_step m x) = ed_view (merge_step m' y)"
    using Cons.prems(2) k e by (rule ed_view_step_cong)
  with r show ?case unfolding ys foldl_Cons by (rule Cons.IH)
qed

lemma cats_view_step:
  "cats_view (merge_step m c) k = cats_view m k \<union> cats_of_listing c k"
  by (auto simp: cats_view_def cats_of_listing_def map_of_merge_step
      role_categories_merge_existing new_record_def split: option.splits)

lemma cats_view_foldl:
  "cats_view (foldl merge_step m xs) k = cats_view m k \<union> (\<Union>c\<in>set xs. cats_of_listing c k)"
  by (induction xs arbitrary: m) (auto simp: cats_view_step)

lemma latest_date_merge_existing:
  "latest_date (merge_existing c r) =
     (if edition c > latest_edition r then date c else latest_date r)"
  by (simp add: merge_existing_def add_category_def promote_def add_edition_def
      split: option.split)

lemma dt_view_step:
  "dt_view (merge_step m c) k =
     (if k = company_key c
      then Some (case dt_view m k of
                   None \<Rightarrow> ([edition c], edition c, date c)
                 | Some (es, l, d) \<Rightarrow>
                     (if edition c \<in> set es then es else es @ [edition c],
                      max l (edition c), if edition c > l then date c else d))
      else dt_view m k)"
  by (simp add: dt_view_def map_of_merge_step editions_merge_existing
      latest_edition_merge_existing latest_date_merge_existing new_record_def
      split: option.split)

lemma dt_view_step_cong:
  assumes "dt_view m = dt_view m'" "company_key c = company_key c'" "edition c = edition c'"
    "date c = date c'"
  shows "dt_view (merge_step m c) = dt_view (merge_step m' c')"
  using assms by (auto simp: dt_view_step fun_eq_iff split: option.splits prod.splits)

lemma dt_view_foldl_cong:
  assumes "map (\<lambda>c. (company_key c, edition c, date c)) xs =
           map (\<lambda>c. (company_key c, edition c, date c)) ys"
    and "dt_view m = dt_view m'"
  shows "dt_view (foldl merge_step m xs) = dt_view (foldl merge_step m' ys)"
  using assms
proof (induction xs arbitrary: ys m m')
  case Nil
  then show ?case by simp
next
  case (Cons x xs)
  then obtain y ys' where ys: "ys = y # ys'" by (cases ys) auto
  with Cons.prems have k: "company_key x = company_key y" and e: "edition x = edition y"
    and d: "date x = date y"
    and r: "map (\<lambda>c. (company_key c, edition c, date c)) xs =
            map (\<lambda>c. (company_key c, edition c, date c)) ys'"
    by simp_all
  have "dt_view (merge_step m x) = dt_view (merge_step m' y)"
    using Cons.prems(2) k e d by (rule dt_view_step_cong)
  with r show ?case unfolding ys foldl_Cons by (rule Cons.IH)
qed

lemma dates_follow_editions:
  assumes ke: "map (\<lambda>c. (company_key c, edition c)) xs = map (\<lambda>c. (company_key c, edition c)) ys"
    and s: "set xs = set ys"
    and d: "\<forall>a \<in> set xs. \<forall>b \<in> set xs.
              company_key a = company_key b \<and> edition a = edition b \<longrightarrow> date a = date b"
  shows "map (\<lambda>c. (company_key c, edition c, date c)) xs =
         map (\<lambda>c. (company_key c, edition c, date c)) ys"
proof (rule nth_equalityI)
  from ke have "length (map (\<lambda>c. (company_key c, edition c)) xs) =
                length (map (\<lambda>c. (company_key c, edition c)) ys)"
    by (rule arg_cong [where f = length])
  then have len: "length xs = length ys" by simp
  then show "length (map (\<lambda>c. (company_key c, edition c, date c)) xs) =
             length (map (\<lambda>c. (company_key c, edition c, date c)) ys)"
    by simp
  fix i
  assume "i < length (map (\<lambda>c. (company_key c, edition c, date c)) xs)"
  then have i: "i < length xs" "i < length ys" using len by simp_all
  from ke have "map (\<lambda>c. (company_key c, edition c)) xs ! i =
                map (\<lambda>c. (company_key c, edition c)) ys ! i"
    by (rule arg_cong [where f = "\<lambda>l. l ! i"])
  with i have same: "company_key (xs ! i) = company_key (ys ! i)" "edition (xs ! i) = edition (ys ! i)"
    by simp_all
  from i(1) have a: "xs ! i \<in> set xs" by (rule nth_mem)
  from i(2) have "ys ! i \<in> set ys" by (rule nth_mem)
  then have b: "ys ! i \<in> set xs" by (simp only: s)
  from d a have "\<forall>b \<in> set xs. company_key (xs ! i) = company_key b \<and>
      edition (xs ! i) = edition b \<longrightarrow> date (xs ! i) = date b"
    by (rule bspec)
  from this b have "company_key (xs ! i) = company_key (ys ! i) \<and>
      edition (xs ! i) = edition (ys ! i) \<longrightarrow> date (xs ! i) = date (ys ! i)"
    by (rule bspec)
  with same have "date (xs ! i) = date (ys ! i)" by simp
  with same i show "map (\<lambda>c. (company_key c, edition c, date c)) xs ! i =
                    map (\<lambda>c. (company_key c, edition c, date c)) ys ! i"
    by simp
qed

text \<open>
  Claim C2, as stated, fails: the record is not independent of the order of same-edition
  duplicates. Two listings of the same company in edition 7 give, in the two orders, two
  records that differ in \<open>company\<close>, \<open>industry\<close>, \<open>stage\<close>, \<open>location\<close>,
  \<open>investors\<close>, \<open>latest_date\<close> and in the order of \<open>role_categories\<close>.
\<close>

theorem same_edition_order_matters:
  "deduplicate_companies
     [\<lparr>company = ''Acme'', industry = ''Fintech'', stage = ''Seed'', location = ''SF'',
        investors = '''', edition = 7, date = ''Feb 1, 2024'', role_category = Some ''BizOps''\<rparr>,
      \<lparr>company = ''ACME'', industry = ''AI'', stage = ''Series A'', location = ''NYC'',
        investors = ''a16z-backed'', edition = 7, date = ''Feb 2, 2024'',
        role_category = Some ''VC''\<rparr>]
   = [\<lparr>cc_company = ''Acme'', cc_industry = ''Fintech'', cc_stage = ''Seed'',
        cc_location = ''SF'', cc_investors = '''', editions = [7], latest_edition = 7,
        latest_date = ''Feb 1, 2024'', role_categories = [''BizOps'', ''VC''],
        description = ''''\<rparr>] \<and>
   deduplicate_companies
     [\<lparr>company = ''ACME'', industry = ''AI'', stage = ''Series A'', location = ''NYC'',
        investors = ''a16z-backed'', edition = 7, date = ''Feb 2, 2024'',
        role_category = Some ''VC''\<rparr>,
      \<lparr>company = ''Acme'', industry = ''Fintech'', stage = ''Seed'', location = ''SF'',
        investors = '''', edition = 7, date = ''Feb 1, 2024'', role_category = Some ''BizOps''\<rparr>]
   = [\<lparr>cc_company = ''ACME'', cc_industry = ''AI'', cc_stage = ''Series A'',
        cc_location = ''NYC'', cc_investors = ''a16z-backed'', editions = [7],
        latest_edition = 7, latest_date = ''Feb 2, 2024'', role_categories = [''VC'', ''BizOps''],
        description = ''''\<rparr>]"
  by code_simp

text \<open>
  Claim C2, amended. Let \<open>ys\<close> be \<open>xs\<close> with listings permuted among positions that
  carry the same company key and the same edition number. Then for every key the final
  records agree on the \<open>editions\<close> list, on \<open>latest_edition\<close> and on the set of
  \<open>role_categories\<close>; they also agree on \<open>latest_date\<close> when listings with the
  same key and the same edition carry the same date. Nothing is stated of the other
  fields.
\<close>

theorem same_edition_permutation_invariants:
  assumes "map (\<lambda>c. (company_key c, edition c)) xs = map (\<lambda>c. (company_key c, edition c)) ys"
    and "mset xs = mset ys"
  shows "map_option editions (map_of (fold_companies xs) k) =
           map_option editions (map_of (fold_companies ys) k) \<and>
         map_option latest_edition (map_of (fold_companies xs) k) =
           map_option latest_edition (map_of (fold_companies ys) k) \<and>
         map_option (\<lambda>r. set (role_categories r)) (map_of (fold_companies xs) k) =
           map_option (\<lambda>r. set (role_categories r)) (map_of (fold_companies ys) k) \<and>
         ((\<forall>a \<in> set xs. \<forall>b \<in> set xs.
             company_key a = company_key b \<and> edition a = edition b \<longrightarrow> date a = date b) \<longrightarrow>
          map_option latest_date (map_of (fold_companies xs) k) =
            map_option latest_date (map_of (fold_companies ys) k))"
proof -
  have v: "ed_view (fold_companies xs) k = ed_view (fold_companies ys) k"
    using ed_view_foldl_cong [OF assms(1), of "[]" "[]"] by (simp add: fold_companies_def)
  have s: "set xs = set ys" using assms(2) by (rule mset_eq_setD)
  then have c: "cats_view (fold_companies xs) k = cats_view (fold_companies ys) k"
    by (simp add: fold_companies_def cats_view_foldl)
  have e: "map_option editions (map_of (fold_companies xs) k) =
       map_option editions (map_of (fold_companies ys) k)"
    using v by (cases "map_of (fold_companies xs) k"; cases "map_of (fold_companies ys) k")
      (simp_all add: ed_view_def)
  have l: "map_option latest_edition (map_of (fold_companies xs) k) =
       map_option latest_edition (map_of (fold_companies ys) k)"
    using v by (cases "map_of (fold_companies xs) k"; cases "map_of (fold_companies ys) k")
      (simp_all add: ed_view_def)
  have r: "map_option (\<lambda>r. set (role_categories r)) (map_of (fold_companies xs) k) =
       map_option (\<lambda>r. set (role_categories r)) (map_of (fold_companies ys) k)"
    using v c by (cases "map_of (fold_companies xs) k"; cases "map_of (fold_companies ys) k")
      (simp_all add: ed_view_def cats_view_def)
  have t: "map_option latest_date (map_of (fold_companies xs) k) =
        map_option latest_date (map_of (fold_companies ys) k)"
    if d: "\<forall>a \<in> set xs. \<forall>b \<in> set xs.
             company_key a = company_key b \<and> edition a = edition b \<longrightarrow> date a = date b"
  proof -
    have "dt_view (fold_companies xs) k = dt_view (fold_companies ys) k"
      using dt_view_foldl_cong [OF dates_follow_editions [OF assms(1) s d], of "[]" "[]"]
      by (simp add: fold_companies_def)
    then show ?thesis
      by (cases "map_of (fold_companies xs) k"; cases "map_of (fold_companies ys) k")
        (simp_all add: dt_view_def)
  qed
  show ?thesis
  proof (intro conjI impI)
    show "map_option editions (map_of (fold_companies xs) k) =
       map_option editions (map_of (fold_companies ys) k)" by (rule e)
    show "map_option latest_edition (map_of (fold_companies xs) k) =
       map_option latest_edition (map_of (fold_companies ys) k)" by (rule l)
    show "map_option (\<lambda>r. set (role_categories r)) (map_of (fold_companies xs) k) =
       map_option (\<lambda>r. set (role_categories r)) (map_of (fold_companies ys) k)" by (rule r)
    assume "\<forall>a \<in> set xs. \<forall>b \<in> set xs.
             company_key a = company_key b \<and> edition a = edition b \<longrightarrow> date a = date b"
    then show "map_option latest_date (map_of (fold_companies xs) k) =
        map_option latest_date (map_of (fold_companies ys) k)" by (rule t)
  qed
qed

theorem same_edition_permutation_invariants_witness:
  "map (\<lambda>c. (company_key c, edition c)) [acme_5, dup_a, dup_b] =
     map (\<lambda>c. (company_key c, edition c)) [acme_5, dup_b, dup_a] \<and>
   mset [acme_5, dup_a, dup_b] = mset [acme_5, dup_b, dup_a] \<and>
   edition acme_5 \<noteq> edition dup_a \<and> edition acme_5 \<noteq> edition dup_b \<and>
   date dup_a = date dup_b \<and>
   map_option editions (map_of (fold_companies [acme_5, dup_a, dup_b]) ''acme'') = Some [7] \<and>
   map_option editions (map_of (fold_companies [acme_5, dup_a, dup_b]) ''acme'') =
     map_option editions (map_of (fold_companies [acme_5, dup_b, dup_a]) ''acme'') \<and>
   map_option latest_edition (map_of (fold_companies [acme_5, dup_a, dup_b]) ''acme'') =
     map_option latest_edition (map_of (fold_companies [acme_5, dup_b, dup_a]) ''acme'') \<and>
   map_option (\<lambda>r. set (role_categories r)) (map_of (fold_companies [acme_5, dup_a, dup_b]) ''acme'') =
     map_option (\<lambda>r. set (role_categories r)) (map_of (fold_companies [acme_5, dup_b, dup_a]) ''acme'') \<and>
   map_option latest_date (map_of (fold_companies [acme_5, dup_a, dup_b]) ''acme'') =
     map_option latest_date (map_of (fold_companies [acme_5, dup_b, dup_a]) ''acme'')"
proof -
  have h1: "map (\<lambda>c. (company_key c, edition c)) [acme_5, dup_a, dup_b] =
     map (\<lambda>c. (company_key c, edition c)) [acme_5, dup_b, dup_a]"
    by code_simp
  have h2: "mset [acme_5, dup_a, dup_b] = mset [acme_5, dup_b, dup_a]"
    by (simp add: add_mset_commute)
  have h3: "\<forall>a \<in> set [acme_5, dup_a, dup_b]. \<forall>b \<in> set [acme_5, dup_a, dup_b].
      company_key a = company_key b \<and> edition a = edition b \<longrightarrow> date a = date b"
    by code_simp
  have v: "map_option editions (map_of (fold_companies [acme_5, dup_a, dup_b]) ''acme'') = Some [7]"
    by code_simp
  have n: "edition acme_5 \<noteq> edition dup_a" "edition acme_5 \<noteq> edition dup_b"
    "date dup_a = date dup_b"
    by code_simp+
  note t = same_edition_permutation_invariants [OF h1 h2, of "''acme''"]
  from t have e: "map_option editions (map_of (fold_companies [acme_5, dup_a, dup_b]) ''acme'') =
     map_option editions (map_of (fold_companies [acme_5, dup_b, dup_a]) ''acme'')"
    by (rule conjunct1)
  from t have l: "map_option latest_edition (map_of (fold_companies [acme_5, dup_a, dup_b]) ''acme'') =
     map_option latest_edition (map_of (fold_companies [acme_5, dup_b, dup_a]) ''acme'')"
    by (elim conjE)
  from t have r: "map_option (\<lambda>r. set (role_categories r)) (map_of (fold_companies [acme_5, dup_a, dup_b]) ''acme'') =
     map_option (\<lambda>r. set (role_categories r)) (map_of (fold_companies [acme_5, dup_b, dup_a]) ''acme'')"
    by (elim conjE)
  from t h3 have d: "map_option latest_date (map_of (fold_companies [acme_5, dup_a, dup_b]) ''acme'') =
     map_option latest_date (map_of (fold_companies [acme_5, dup_b, dup_a]) ''acme'')"
    by (elim conjE) (erule (1) mp)
  from h1 h2 n v e l r d show ?thesis by (intro conjI)
qed

section \<open>Properties of parse_job_line\<close>

lemma classify_foldl:
  "foldl classify_part ([], []) ps =
     (last_or_empty (map strip (filter is_stage_part ps)),
      last_or_empty (map strip (filter is_investors_part ps)))"
proof (induction ps rule: rev_induct)
  case Nil
  then show ?case by (simp add: last_or_empty_def)
next
  case (snoc p ps)
  then show ?case
    by (simp add: classify_part_def is_stage_part_def is_investors_part_def last_or_empty_def
        Let_def)
qed

subsection \<open>Stripping\<close>

lemma lstrip_rstrip: "lstrip (rstrip (lstrip s)) = rstrip (lstrip s)"
proof (cases "rstrip (lstrip s) = []")
  case True
  then show ?thesis by (simp add: lstrip_def)
next
  case False
  let ?a = "lstrip s"
  have "?a = rev (takeWhile is_space (rev ?a) @ dropWhile is_space (rev ?a))"
    by (simp only: takeWhile_dropWhile_id rev_rev_ident)
  then have a: "?a = rstrip ?a @ rev (takeWhile is_space (rev ?a))"
    by (simp only: rev_append rstrip_def)
  with False have "hd (rstrip ?a) = hd ?a" by (metis hd_append2)
  moreover from a False have "?a \<noteq> []" by auto
  then have "\<not> is_space (hd ?a)" unfolding lstrip_def by (rule hd_dropWhile)
  ultimately have "\<not> is_space (hd (rstrip ?a))" by simp
  with False show ?thesis by (cases "rstrip ?a") (simp_all add: lstrip_def)
qed

lemma strip_idem: "strip (strip s) = strip s"
proof -
  have "rstrip (rstrip t) = rstrip t" for t by (simp add: rstrip_def)
  then show ?thesis by (simp add: strip_def lstrip_rstrip)
qed

lemma strip_empty: "strip [] = []"
  by (simp add: strip_def lstrip_def rstrip_def)

lemma strip_last_or_empty:
  "strip (last_or_empty (map strip xs)) = last_or_empty (map strip xs)"
  by (cases "xs = []") (simp_all add: last_or_empty_def strip_empty strip_idem last_map)

subsection \<open>The fields of the returned record\<close>

lemma parse_job_line_details:
  assumes "parse_job_line line = Some r"
  shows "\<exists>details. matched_details line = Some details \<and>
           pl_industry r = strip (fst (parse_details details)) \<and>
           pl_stage r = strip (fst (snd (parse_details details))) \<and>
           pl_investors r = strip (snd (snd (parse_details details)))"
  using assms unfolding parse_job_line_def matched_details_def Let_def
  by (auto split: if_splits option.splits list.splits prod.splits)

lemma parse_job_line_stage:
  assumes "parse_job_line line = Some r"
  shows "pl_stage r = last_or_empty (map strip (filter is_stage_part (loop_segments line)))"
proof -
  from parse_job_line_details [OF assms] obtain details
    where d: "matched_details line = Some details"
      and s: "pl_stage r = strip (fst (snd (parse_details details)))"
    by blast
  from d have "loop_segments line = drop 1 (details_parts details)"
    by (simp add: loop_segments_def)
  with s show ?thesis
    by (simp add: parse_details_def Let_def classify_foldl strip_last_or_empty)
qed

lemma parse_job_line_investors:
  assumes "parse_job_line line = Some r"
  shows "pl_investors r =
           last_or_empty (map strip (filter is_investors_part (loop_segments line)))"
proof -
  from parse_job_line_details [OF assms] obtain details
    where d: "matched_details line = Some details"
      and s: "pl_investors r = strip (snd (snd (parse_details details)))"
    by blast
  from d have "loop_segments line = drop 1 (details_parts details)"
    by (simp add: loop_segments_def)
  with s show ?thesis
    by (simp add: parse_details_def Let_def classify_foldl strip_last_or_empty)
qed

text \<open>
  Claim C1, as stated, fails: the loop has no \<open>break\<close> and assigns \<open>stage\<close> and
  \<open>investors\<close> at every matching segment, so the last matching segment wins. On a line
  with the segments Series B and Seed extension the stage is Seed extension, and of the
  two segments with "backed" the second becomes the investors.
\<close>

theorem first_stage_segment_does_not_win:
  "parse_job_line
     ''Senior PM, Acme Health (Healthcare, Series B, Seed extension, YC-backed, a16z-backed), SF''
   = Some \<lparr>pl_company = ''Acme Health'', pl_industry = ''Healthcare'',
       pl_stage = ''Seed extension'', pl_location = ''SF'', pl_investors = ''a16z-backed''\<rparr>"
  by code_simp

text \<open>
  Claim C1, amended. For every line that \<open>parse_job_line\<close> accepts, among the
  comma-separated segments of the details after the first, the last segment that contains
  a funding/stage keyword becomes the \<open>stage\<close> field of the returned record, and the last
  segment that contains "backed" and no funding/stage keyword becomes the \<open>investors\<close>
  field; earlier matching segments are overwritten. Without a matching segment the field
  is the empty string.
\<close>

theorem last_matching_segment_wins:
  assumes "parse_job_line line = Some r"
  shows "pl_stage r = last_or_empty (map strip (filter is_stage_part (loop_segments line))) \<and>
         pl_investors r =
           last_or_empty (map strip (filter is_investors_part (loop_segments line)))"
  using parse_job_line_stage [OF assms] parse_job_line_investors [OF assms] by (rule conjI)

theorem last_matching_segment_wins_witness:
  "parse_job_line
     ''Senior PM, Acme Health (Healthcare, Series B, Seed extension, YC-backed, a16z-backed), SF''
   = Some \<lparr>pl_company = ''Acme Health'', pl_industry = ''Healthcare'',
       pl_stage = ''Seed extension'', pl_location = ''SF'', pl_investors = ''a16z-backed''\<rparr> \<and>
   loop_segments
     ''Senior PM, Acme Health (Healthcare, Series B, Seed extension, YC-backed, a16z-backed), SF''
   = [''Series B'', ''Seed extension'', ''YC-backed'', ''a16z-backed''] \<and>
   filter is_stage_part [''Series B'', ''Seed extension'', ''YC-backed'', ''a16z-backed''] =
     [''Series B'', ''Seed extension''] \<and>
   filter is_investors_part [''Series B'', ''Seed extension'', ''YC-backed'', ''a16z-backed''] =
     [''YC-backed'', ''a16z-backed''] \<and>
   pl_stage \<lparr>pl_company = ''Acme Health'', pl_industry = ''Healthcare'',
       pl_stage = ''Seed extension'', pl_location = ''SF'', pl_investors = ''a16z-backed''\<rparr> =
     last_or_empty (map strip (filter is_stage_part (loop_segments
       ''Senior PM, Acme Health (Healthcare, Series B, Seed extension, YC-backed, a16z-backed), SF''))) \<and>
   pl_investors \<lparr>pl_company = ''Acme Health'', pl_industry = ''Healthcare'',
       pl_stage = ''Seed extension'', pl_location = ''SF'', pl_investors = ''a16z-backed''\<rparr> =
     last_or_empty (map strip (filter is_investors_part (loop_segments
       ''Senior PM, Acme Health (Healthcare, Series B, Seed extension, YC-backed, a16z-backed), SF'')))"
proof -
  have h: "parse_job_line
     ''Senior PM, Acme Health (Healthcare, Series B, Seed extension, YC-backed, a16z-backed), SF''
   = Some \<lparr>pl_company = ''Acme Health'', pl_industry = ''Healthcare'',
       pl_stage = ''Seed extension'', pl_location = ''SF'', pl_investors = ''a16z-backed''\<rparr>"
    by code_simp
  have s: "loop_segments
     ''Senior PM, Acme Health (Healthcare, Series B, Seed extension, YC-backed, a16z-backed), SF''
   = [''Series B'', ''Seed extension'', ''YC-backed'', ''a16z-backed'']"
    by code_simp
  have f: "filter is_stage_part [''Series B'', ''Seed extension'', ''YC-backed'', ''a16z-backed''] =
     [''Series B'', ''Seed extension'']"
    by code_simp
  have g: "filter is_investors_part
       [''Series B'', ''Seed extension'', ''YC-backed'', ''a16z-backed''] =
     [''YC-backed'', ''a16z-backed'']"
    by code_simp
  note t = last_matching_segment_wins [OF h]
  from t have a: "pl_stage \<lparr>pl_company = ''Acme Health'', pl_industry = ''Healthcare'',
       pl_stage = ''Seed extension'', pl_location = ''SF'', pl_investors = ''a16z-backed''\<rparr> =
     last_or_empty (map strip (filter is_stage_part (loop_segments
       ''Senior PM, Acme Health (Healthcare, Series B, Seed extension, YC-backed, a16z-backed), SF'')))"
    by (rule conjunct1)
  from t have b: "pl_investors \<lparr>pl_company = ''Acme Health'', pl_industry = ''Healthcare'',
       pl_stage = ''Seed extension'', pl_location = ''SF'', pl_investors = ''a16z-backed''\<rparr> =
     last_or_empty (map strip (filter is_investors_part (loop_segments
       ''Senior PM, Acme Health (Healthcare, Series B, Seed extension, YC-backed, a16z-backed), SF'')))"
    by (rule conjunct2)
  from h s f g a b show ?thesis by (intro conjI)
qed

text \<open>
  Claim C9. Let \<open>parse_job_line\<close> accept a line, and let \<open>p\<close> be one of the segments after
  the first, with \<open>pre\<close> the segments before it and \<open>post\<close> those after it, and let \<open>p\<close>
  contain "backed". If \<open>p\<close> also contains a funding/stage keyword, it is classified as
  stage and never as investors: the \<open>stage\<close> field of the returned record is \<open>p\<close> (unless
  a later segment with a keyword overwrites it) and the \<open>investors\<close> field is what the
  other segments alone give. Only without a funding/stage keyword does \<open>p\<close> set the
  \<open>investors\<close> field (unless a later segment overwrites it).
\<close>

theorem stage_branch_takes_precedence:
  assumes "parse_job_line line = Some r"
    and "loop_segments line = pre @ p # post"
    and "is_in ''backed'' (lower p)"
  shows "(any_in stage_keywords (lower p) \<longrightarrow>
            pl_stage r = last (strip p # map strip (filter is_stage_part post)) \<and>
            pl_investors r =
              last_or_empty (map strip (filter is_investors_part (pre @ post)))) \<and>
         (\<not> any_in stage_keywords (lower p) \<longrightarrow>
            pl_investors r = last (strip p # map strip (filter is_investors_part post)))"
proof (intro conjI impI)
  assume k: "any_in stage_keywords (lower p)"
  then have sp: "is_stage_part p" and ip: "\<not> is_investors_part p"
    by (simp_all add: is_stage_part_def is_investors_part_def)
  from parse_job_line_stage [OF assms(1)] assms(2) sp
  show "pl_stage r = last (strip p # map strip (filter is_stage_part post))"
    by (simp add: last_or_empty_def)
  from parse_job_line_investors [OF assms(1)] assms(2) ip
  show "pl_investors r = last_or_empty (map strip (filter is_investors_part (pre @ post)))"
    by simp
next
  assume "\<not> any_in stage_keywords (lower p)"
  with assms(3) have ip: "is_investors_part p"
    by (simp add: is_stage_part_def is_investors_part_def)
  from parse_job_line_investors [OF assms(1)] assms(2) ip
  show "pl_investors r = last (strip p # map strip (filter is_investors_part post))"
    by (simp add: last_or_empty_def)
qed

theorem stage_branch_takes_precedence_witness:
  "parse_job_line
     ''Head of Ops, Beta Labs (Fintech, YC-backed, Seed round backed by a16z, Hybrid), NYC''
   = Some \<lparr>pl_company = ''Beta Labs'', pl_industry = ''Fintech'',
       pl_stage = ''Seed round backed by a16z'', pl_location = ''NYC'',
       pl_investors = ''YC-backed''\<rparr> \<and>
   loop_segments
     ''Head of Ops, Beta Labs (Fintech, YC-backed, Seed round backed by a16z, Hybrid), NYC''
   = [''YC-backed''] @ ''Seed round backed by a16z'' # [''Hybrid''] \<and>
   is_in ''backed'' (lower ''Seed round backed by a16z'') \<and>
   any_in stage_keywords (lower ''Seed round backed by a16z'') \<and>
   pl_stage \<lparr>pl_company = ''Beta Labs'', pl_industry = ''Fintech'',
       pl_stage = ''Seed round backed by a16z'', pl_location = ''NYC'',
       pl_investors = ''YC-backed''\<rparr> =
     last (strip ''Seed round backed by a16z'' # map strip (filter is_stage_part [''Hybrid''])) \<and>
   pl_investors \<lparr>pl_company = ''Beta Labs'', pl_industry = ''Fintech'',
       pl_stage = ''Seed round backed by a16z'', pl_location = ''NYC'',
       pl_investors = ''YC-backed''\<rparr> =
     last_or_empty (map strip (filter is_investors_part ([''YC-backed''] @ [''Hybrid''])))  \<and>
   loop_segments
     ''Head of Ops, Beta Labs (Fintech, YC-backed, Seed round backed by a16z, Hybrid), NYC''
   = [] @ ''YC-backed'' # [''Seed round backed by a16z'', ''Hybrid''] \<and>
   is_in ''backed'' (lower ''YC-backed'') \<and>
   \<not> any_in stage_keywords (lower ''YC-backed'') \<and>
   pl_investors \<lparr>pl_company = ''Beta Labs'', pl_industry = ''Fintech'',
       pl_stage = ''Seed round backed by a16z'', pl_location = ''NYC'',
       pl_investors = ''YC-backed''\<rparr> =
     last (strip ''YC-backed'' #
       map strip (filter is_investors_part [''Seed round backed by a16z'', ''Hybrid'']))"
proof -
  have h: "parse_job_line
     ''Head of Ops, Beta Labs (Fintech, YC-backed, Seed round backed by a16z, Hybrid), NYC''
   = Some \<lparr>pl_company = ''Beta Labs'', pl_industry = ''Fintech'',
       pl_stage = ''Seed round backed by a16z'', pl_location = ''NYC'',
       pl_investors = ''YC-backed''\<rparr>"
    by code_simp
  have s1: "loop_segments
     ''Head of Ops, Beta Labs (Fintech, YC-backed, Seed round backed by a16z, Hybrid), NYC''
   = [''YC-backed''] @ ''Seed round backed by a16z'' # [''Hybrid'']"
    by code_simp
  have b1: "is_in ''backed'' (lower ''Seed round backed by a16z'')" by code_simp
  have k1: "any_in stage_keywords (lower ''Seed round backed by a16z'')" by code_simp
  have s2: "loop_segments
     ''Head of Ops, Beta Labs (Fintech, YC-backed, Seed round backed by a16z, Hybrid), NYC''
   = [] @ ''YC-backed'' # [''Seed round backed by a16z'', ''Hybrid'']"
    by code_simp
  have b2: "is_in ''backed'' (lower ''YC-backed'')" by code_simp
  have k2: "\<not> any_in stage_keywords (lower ''YC-backed'')" by code_simp
  note t1 = stage_branch_takes_precedence [OF h s1 b1, THEN conjunct1, rule_format, OF k1]
  note t2 = stage_branch_takes_precedence [OF h s2 b2, THEN conjunct2, rule_format, OF k2]
  from t1 have a: "pl_stage \<lparr>pl_company = ''Beta Labs'', pl_industry = ''Fintech'',
       pl_stage = ''Seed round backed by a16z'', pl_location = ''NYC'',
       pl_investors = ''YC-backed''\<rparr> =
     last (strip ''Seed round backed by a16z'' # map strip (filter is_stage_part [''Hybrid'']))"
    by (rule conjunct1)
  from t1 have b: "pl_investors \<lparr>pl_company = ''Beta Labs'', pl_industry = ''Fintech'',
       pl_stage = ''Seed round backed by a16z'', pl_location = ''NYC'',
       pl_investors = ''YC-backed''\<rparr> =
     last_or_empty (map strip (filter is_investors_part ([''YC-backed''] @ [''Hybrid''])))"
    by (rule conjunct2)
  from h s1 b1 k1 a b s2 b2 k2 t2 show ?thesis by (intro conjI)
qed

section \<open>Properties of normalize_location and is_valid_location\<close>

subsection \<open>The closed vocabulary\<close>

lemma find_in_set: "find P xs = Some x \<Longrightarrow> x \<in> set xs"
  by (induction xs) (auto split: if_splits)

lemma Remote_tag: "''Remote'' \<in> set location_tags"
  by (simp add: location_tags_def)

lemma gazetteer_lookup_tag:
  "gazetteer_lookup p = Some t \<Longrightarrow> t \<in> set location_tags"
  by (force simp: gazetteer_lookup_def location_tags_def dest: find_in_set)

lemma normalize_part_tag:
  "normalize_part p = Some t \<Longrightarrow> t \<in> set location_tags"
  by (auto simp: normalize_part_def Let_def Remote_tag split: if_splits
      intro: gazetteer_lookup_tag)

lemma set_map_filter_normalize_part:
  "set (List.map_filter normalize_part ps) \<subseteq> set location_tags"
  by (auto simp: List.map_filter_def normalize_part_tag)

lemma set_unique_parts:
  "x \<in> set (unique_parts seen ps) \<Longrightarrow> x \<in> set ps \<and> x \<notin> set seen \<and> x \<noteq> []"
  by (induction ps arbitrary: seen) (fastforce simp: in_list_def split: if_splits)+

lemma distinct_unique_parts: "distinct (unique_parts seen ps)"
  by (induction ps arbitrary: seen) (auto dest: set_unique_parts)

lemma unique_parts_props:
  "distinct (unique_parts seen ps) \<and> set (unique_parts seen ps) \<subseteq> set ps - set seen - {[]}"
  using set_unique_parts [of _ seen ps] by (auto simp: distinct_unique_parts)

lemma join_not_empty: "ts \<noteq> [] \<Longrightarrow> [] \<notin> set ts \<Longrightarrow> join sep ts \<noteq> []"
  by (induction sep ts rule: join.induct) auto

lemma normalize_location_shape:
  assumes "loc \<noteq> []"
  shows "\<exists>ts. distinct ts \<and> set ts \<subseteq> set location_tags \<and> [] \<notin> set ts \<and>
            normalize_location loc = (if ts = [] then ''Remote'' else join '' / '' ts)"
proof -
  define ps where "ps = map strip (split_on CHR ''/''
    (re_sub trailing_comma (\<lambda>_. []) (re_sub trailing_period (\<lambda>_. [])
      (re_sub edge_slashes (\<lambda>_. []) (re_sub ws_run (\<lambda>_. '' '') (strip loc))))))"
  define ts where "ts = unique_parts [] (List.map_filter normalize_part ps)"
  have n: "normalize_location loc = (if ts = [] then ''Remote'' else join '' / '' ts)"
    using assms by (simp add: normalize_location_def Let_def ts_def ps_def)
  have "distinct ts" and s: "set ts \<subseteq> set (List.map_filter normalize_part ps) - {[]}"
    using unique_parts_props [of "[]" "List.map_filter normalize_part ps"]
    by (auto simp: ts_def)
  moreover from s have "set ts \<subseteq> set location_tags" "[] \<notin> set ts"
    using set_map_filter_normalize_part [of ps] by auto
  ultimately show ?thesis using n by blast
qed


lemma normalize_location_not_empty:
  assumes "loc \<noteq> []"
  shows "normalize_location loc \<noteq> []"
proof -
  from normalize_location_shape [OF assms] obtain ts where
    "[] \<notin> set ts" "normalize_location loc = (if ts = [] then ''Remote'' else join '' / '' ts)"
    by blast
  then show ?thesis by (cases "ts = []") (simp_all add: join_not_empty)
qed



text \<open>
  Claim C10. On the empty string \<open>normalize_location\<close> returns the empty string, without
  the fallback to \<open>Remote\<close>; on every non-empty string, and so on every string that
  \<open>is_valid_location\<close> accepts, the result is not empty.
\<close>

theorem normalize_location_empty_input:
  "normalize_location [] = [] \<and>
   (\<forall>loc. loc \<noteq> [] \<longrightarrow> normalize_location loc \<noteq> []) \<and>
   (\<forall>loc. is_valid_location loc \<longrightarrow> normalize_location loc \<noteq> [])"
proof (intro conjI allI impI)
  show "normalize_location [] = []" by (simp add: normalize_location_def)
next
  fix loc :: string
  assume "loc \<noteq> []"
  then show "normalize_location loc \<noteq> []" by (rule normalize_location_not_empty)
next
  fix loc
  assume "is_valid_location loc"
  then have "loc \<noteq> []" by (auto simp: is_valid_location_def)
  then show "normalize_location loc \<noteq> []" by (rule normalize_location_not_empty)
qed

theorem normalize_location_empty_input_witness:
  "normalize_location [] = [] \<and>
   ''Atlantis'' \<noteq> [] \<and> is_valid_location ''Atlantis'' \<and>
   normalize_location ''Atlantis'' = ''Remote'' \<and> normalize_location ''Atlantis'' \<noteq> []"
proof -
  have h: "''Atlantis'' \<noteq> []" by simp
  have v: "is_valid_location ''Atlantis''" by code_simp
  have r: "normalize_location ''Atlantis'' = ''Remote''" by code_simp
  note t = normalize_location_empty_input
  from t have e: "normalize_location [] = []" by (rule conjunct1)
  from t h have a: "normalize_location ''Atlantis'' \<noteq> []" by blast
  from e h v r a show ?thesis by (intro conjI)
qed

subsection \<open>Locations of two characters\<close>

lemma upper_char_not_empty: "upper_char c \<noteq> []"
  by (simp add: upper_char_def Let_def)

lemma two_nonempty_pieces:
  "xs \<noteq> [] \<Longrightarrow> ys \<noteq> [] \<Longrightarrow> xs @ ys = [a, b] \<Longrightarrow> xs = [a] \<and> ys = [b]"
  by (cases xs; cases ys) (auto simp: append_eq_Cons_conv)

lemma upper_char_ascii_capital:
  assumes "upper_char c = [u]" and "u \<in> set ''SFLANYDCUK''"
  shows "lower_char c = lower_char u"
proof (cases c)
  case (Char b0 b1 b2 b3 b4 b5 b6 b7)
  with assms show ?thesis
    by (auto simp: upper_char_code lower_char_code split: if_splits)
qed

lemma upper_two_letters:
  assumes "length loc = 2" and "upper loc = [a, b]"
    and "a \<in> set ''SFLANYDCUK''" and "b \<in> set ''SFLANYDCUK''"
  shows "lower loc = lower [a, b]"
proof -
  from assms(1) obtain c1 c2 where loc: "loc = [c1, c2]"
    by (cases loc; cases "tl loc") auto
  with assms(2) have "upper_char c1 @ upper_char c2 = [a, b]"
    by (simp add: upper_def)
  then have "upper_char c1 = [a] \<and> upper_char c2 = [b]"
    by (rule two_nonempty_pieces [OF upper_char_not_empty upper_char_not_empty])
  with assms(3,4) have "lower_char c1 = lower_char a" "lower_char c2 = lower_char b"
    by (auto intro: upper_char_ascii_capital)
  with loc show ?thesis by (simp add: lower_def)
qed

lemma known_two_letter_pass:
  "list_all (\<lambda>w. \<not> list_ex (\<lambda>pattern. re_search pattern (lower w)) location_garbage_patterns)
     known_two_letter"
  by code_simp

lemma known_upper_passes:
  assumes "length loc = 2" and "upper loc \<in> set known_two_letter"
  shows "\<not> list_ex (\<lambda>pattern. re_search pattern (lower loc)) location_garbage_patterns"
proof -
  from assms(2) obtain a b where ab: "upper loc = [a, b]"
    "a \<in> set ''SFLANYDCUK''" "b \<in> set ''SFLANYDCUK''"
    by (auto simp: known_two_letter_def)
  with assms(1) have "lower loc = lower (upper loc)"
    by (simp add: upper_two_letters)
  with assms(2) known_two_letter_pass show ?thesis
    by (auto simp: list_all_iff)
qed


text \<open>
  Claim C7. A location of exactly two characters is valid if and only if its upper-case
  form is one of SF, LA, NY, DC and UK; and a two-character location with such an
  upper-case form matches none of the reject patterns.
\<close>

theorem two_letter_location_rule:
  assumes "length loc = 2"
  shows "is_valid_location loc = (upper loc \<in> {''SF'', ''LA'', ''NY'', ''DC'', ''UK''}) \<and>
         (upper loc \<in> {''SF'', ''LA'', ''NY'', ''DC'', ''UK''} \<longrightarrow>
            \<not> list_ex (\<lambda>pattern. re_search pattern (lower loc)) location_garbage_patterns)"
proof (cases "upper loc \<in> set known_two_letter")
  case True
  with assms known_upper_passes [OF assms True] show ?thesis
    by (auto simp: is_valid_location_def Let_def in_list_def known_two_letter_def)
next
  case False
  with assms show ?thesis
    by (auto simp: is_valid_location_def Let_def in_list_def known_two_letter_def)
qed

theorem two_letter_location_rule_witness:
  "length ''uk'' = 2 \<and> upper ''uk'' = ''UK'' \<and> is_valid_location ''uk'' \<and>
   \<not> list_ex (\<lambda>pattern. re_search pattern (lower ''uk'')) location_garbage_patterns \<and>
   length ''tx'' = 2 \<and> upper ''tx'' = ''TX'' \<and> \<not> is_valid_location ''tx''"
proof -
  have l1: "length ''uk'' = 2" by simp
  have u1: "upper ''uk'' = ''UK''" by code_simp
  have l2: "length ''tx'' = 2" by simp
  have u2: "upper ''tx'' = ''TX''" by code_simp
  note t1 = two_letter_location_rule [OF l1]
  note t2 = two_letter_location_rule [OF l2]
  from t1 u1 have a: "is_valid_location ''uk''" by simp
  from t1 u1 have b:
    "\<not> list_ex (\<lambda>pattern. re_search pattern (lower ''uk'')) location_garbage_patterns"
    by simp
  from t2 u2 have c: "\<not> is_valid_location ''tx''" by simp
  from l1 u1 a b l2 u2 c show ?thesis by (intro conjI)
qed

subsection \<open>Substitutions that find no match\<close>

subsection \<open>No match, no change\<close>

lemma try_counts_None:
  "(\<And>n. n \<in> set ns \<Longrightarrow> re_match as (last_char prev (take n s)) (drop n s) = None) \<Longrightarrow>
     try_counts cap as prev s ns = None"
  by (induction ns) simp_all

lemma re_sub_from_no_match:
  assumes "\<And>pre t. s = pre @ t \<Longrightarrow> t \<noteq> [] \<Longrightarrow> re_alt p (last_char prev pre) t = None"
  shows "re_sub_from p repl prev 0 s = s"
  using assms
proof (induction s arbitrary: prev)
  case Nil
  then show ?case by simp
next
  case (Cons c cs)
  have "re_alt p (last_char prev []) (c # cs) = None"
    by (rule Cons.prems) simp_all
  then have here: "re_alt p prev (c # cs) = None" by (simp add: last_char_def)
  have "re_sub_from p repl (Some c) 0 cs = cs"
  proof (rule Cons.IH)
    fix pre t
    assume "cs = pre @ t" and "t \<noteq> []"
    then have "re_alt p (last_char prev (c # pre)) t = None"
      by (intro Cons.prems) simp_all
    then show "re_alt p (last_char (Some c) pre) t = None"
      by (cases pre) (simp_all add: last_char_def)
  qed
  with here show ?case by simp
qed

lemma run_short:
  assumes "t \<noteq> []" and "\<not> P (last t)"
  shows "run_length P t < length t"
proof -
  have "takeWhile P t \<noteq> t"
    using assms by (auto simp: takeWhile_eq_all_conv)
  moreover have "length (takeWhile P t) \<le> length t" by (rule length_takeWhile_le)
  ultimately show ?thesis
    unfolding run_length_def
    by (metis le_neq_implies_less takeWhile_eq_take take_all_iff order_refl)
qed

lemma set_counts_Plus: "set (counts Plus r) = {1..r}"
  by auto

lemma set_counts_Star: "set (counts Star r) = {0..r}"
  by auto

lemma is_space_newline: "is_space newline"
  by code_simp

lemma is_space_blank: "is_space CHR '' ''"
  by code_simp

lemma not_is_space_slash: "\<not> is_space CHR ''/''"
  by code_simp

lemma class_then_eol_no_match:
  assumes "t \<noteq> []" and "\<not> P (last t)" and "P newline"
  shows "re_match [Class P Plus cap, Eol] prev t = None"
proof -
  have "re_match [Eol] (last_char prev (take n t)) (drop n t) = None"
    if "n \<in> set (counts Plus (run_length P t))" for n
  proof -
    from that have "n \<le> run_length P t" by (simp add: set_counts_Plus del: counts.simps)
    with run_short [of t P] assms(1,2) have n: "n < length t" by simp
    then have ne: "drop n t \<noteq> []" and l: "last (drop n t) = last t" by simp_all
    have "\<not> at_eol (drop n t)"
    proof
      assume "at_eol (drop n t)"
      with ne have "drop n t = [newline]" by (simp add: at_eol_def)
      then have "last (drop n t) = newline" by simp
      with l assms(2,3) show False by simp
    qed
    then show ?thesis by simp
  qed
  then show ?thesis by (simp add: try_counts_None del: counts.simps)
qed

lemma edge_slashes_no_match:
  assumes "t \<noteq> []" and "last t \<noteq> CHR ''/''" and "\<not> is_space (last t)"
    and "prev = None \<longrightarrow> hd t \<noteq> CHR ''/'' \<and> \<not> is_space (hd t)"
  shows "re_alt edge_slashes prev t = None"
proof -
  let ?P = "\<lambda>c. c = CHR ''/'' \<or> is_space c"
  have a: "re_match [Bol, Class ?P Plus False] prev t = None"
  proof (cases prev)
    case None
    with assms(1,4) have "run_length ?P t = 0"
      by (cases t) (simp_all add: run_length_def)
    then show ?thesis by simp
  next
    case (Some c)
    then show ?thesis by simp
  qed
  have b: "re_match [Class ?P Plus False, Eol] prev t = None"
    using assms(1-3) by (intro class_then_eol_no_match) (simp_all add: is_space_newline)
  from a b show ?thesis by (simp add: re_alt_def edge_slashes_def)
qed

lemma trailing_period_no_match:
  assumes "t \<noteq> []" and "last t \<noteq> CHR ''.''" and "\<not> is_space (last t)"
  shows "re_alt trailing_period prev t = None"
proof -
  have "\<not> at_eol cs" if "t = CHR ''.'' # cs" for cs
    using assms that is_space_newline by (auto simp: at_eol_def split: if_splits)
  then show ?thesis
    by (cases t) (auto simp: re_alt_def trailing_period_def)
qed

lemma starts_with_hd: "starts_with [c] s \<Longrightarrow> c \<in> set s"
  by (cases s) (auto split: if_splits)

lemma trailing_comma_no_match:
  assumes "CHR '','' \<notin> set t"
  shows "re_alt trailing_comma prev t = None"
proof -
  have "re_match [Lit '','', Class is_space Star False, Eol] q (drop n t) = None" for q n
  proof -
    have "CHR '','' \<notin> set (drop n t)"
      using assms by (meson in_set_dropD)
    then have "\<not> starts_with '','' (drop n t)" by (auto dest: starts_with_hd)
    then show ?thesis by simp
  qed
  then show ?thesis
    by (simp add: re_alt_def trailing_comma_def try_counts_None del: counts.simps)
qed

subsection \<open>Single blanks stay\<close>

lemma ws_run_no_space:
  "\<not> is_space c \<Longrightarrow> re_alt ws_run prev (c # cs) = None"
  by (simp add: re_alt_def ws_run_def run_length_def)

lemma ws_run_single_blank:
  "\<not> is_space d \<Longrightarrow> re_alt ws_run prev (CHR '' '' # d # ds) = Some ([], d # ds)"
  by (simp add: re_alt_def ws_run_def run_length_def is_space_blank)

lemma ws_run_single_spaced:
  "single_spaced s \<Longrightarrow> re_sub_from ws_run (\<lambda>_. '' '') prev 0 s = s"
proof (induction s arbitrary: prev rule: single_spaced.induct)
  case 1
  then show ?case by simp
next
  case (2 c)
  then show ?case by (simp add: ws_run_no_space)
next
  case (3 c d ds)
  then have rest: "re_sub_from ws_run (\<lambda>_. '' '') (Some c) 0 (d # ds) = d # ds"
    by simp
  show ?case
  proof (cases "is_space c")
    case True
    with "3.prems" have c: "c = CHR '' ''" and d: "\<not> is_space d" by simp_all
    have "re_sub_from ws_run (\<lambda>_. '' '') prev 0 (CHR '' '' # d # ds) =
        '' '' @ re_sub_from ws_run (\<lambda>_. '' '') (Some CHR '' '') 0 (d # ds)"
      by (subst re_sub_from.simps(2)) (simp add: ws_run_single_blank [OF d] del: re_sub_from.simps)
    with rest show ?thesis unfolding c by simp
  next
    case False
    with rest show ?thesis by (simp add: ws_run_no_space)
  qed
qed

subsection \<open>Canonical locations are fixed points\<close>

subsection \<open>strip\<close>

lemma strip_blanks_around:
  assumes "w \<noteq> []" and "\<not> is_space (hd w)" and "\<not> is_space (last w)"
    and "\<forall>c \<in> set pre. is_space c" and "\<forall>c \<in> set post. is_space c"
  shows "strip (pre @ w @ post) = w"
proof -
  have "dropWhile is_space (pre @ w @ post) = dropWhile is_space (w @ post)"
    by (rule dropWhile_append2) (use assms(4) in auto)
  also have "\<dots> = w @ post"
    using assms(1,2) by (cases w) simp_all
  finally have l: "lstrip (pre @ w @ post) = w @ post" by (simp add: lstrip_def)
  have "dropWhile is_space (rev post @ rev w) = dropWhile is_space (rev w)"
    by (rule dropWhile_append2) (use assms(5) in auto)
  also have "\<dots> = rev w"
    using assms(1,3) by (cases "rev w") (auto simp: hd_rev)
  finally have "rstrip (w @ post) = w" by (simp add: rstrip_def)
  with l show ?thesis by (simp add: strip_def)
qed

lemma strip_plain: "w \<noteq> [] \<Longrightarrow> \<not> is_space (hd w) \<Longrightarrow> \<not> is_space (last w) \<Longrightarrow> strip w = w"
  using strip_blanks_around [of w "[]" "[]"] by simp

subsection \<open>split and join\<close>

lemma split_on_not_empty: "split_on d s \<noteq> []"
  by (induction s) (auto split: list.splits)

lemma split_on_no_separator: "d \<notin> set a \<Longrightarrow> split_on d a = [a]"
  by (induction a) (auto split: list.splits)

lemma split_on_append: "d \<notin> set a \<Longrightarrow> split_on d (a @ d # b) = a # split_on d b"
  by (induction a) (auto split: list.splits simp: split_on_not_empty)

lemma single_spaced_last: "single_spaced s \<Longrightarrow> s \<noteq> [] \<Longrightarrow> \<not> is_space (last s)"
  by (induction s rule: single_spaced.induct) auto

lemma single_spaced_append:
  "single_spaced a \<Longrightarrow> single_spaced b \<Longrightarrow> single_spaced (a @ b)"
proof (induction a rule: single_spaced.induct)
  case 1
  then show ?case by simp
next
  case (2 c)
  then show ?case by (cases b) simp_all
next
  case (3 c d ds)
  then show ?case by simp
qed

lemma single_spaced_separator:
  assumes "r \<noteq> []" and "\<not> is_space (hd r)" and "single_spaced r"
  shows "single_spaced ('' / '' @ r)"
  using assms by (cases r) (simp_all add: is_space_blank not_is_space_slash)

text \<open>What the joined string inherits from plain tags.\<close>

lemma plain_tagD:
  assumes "plain_tag t"
  shows "t \<noteq> []" "\<not> is_space (hd t)" "single_spaced t" "\<not> is_space (last t)"
    "CHR ''/'' \<notin> set t" "CHR '','' \<notin> set t" "last t \<noteq> CHR ''.''"
    "hd t \<noteq> CHR ''/''" "last t \<noteq> CHR ''/''"
proof -
  from assms show a: "t \<noteq> []" "\<not> is_space (hd t)" "single_spaced t" "last t \<noteq> CHR ''.''"
    and b: "CHR ''/'' \<notin> set t" "CHR '','' \<notin> set t"
    by (auto simp: plain_tag_def list_all_iff)
  from a show "\<not> is_space (last t)" by (simp add: single_spaced_last)
  from a(1) have "hd t \<in> set t" and "last t \<in> set t" by simp_all
  with b(1) show "hd t \<noteq> CHR ''/''" "last t \<noteq> CHR ''/''" by auto
qed

lemma blanks_are_spaces: "\<forall>c \<in> set pre. c = CHR '' '' \<Longrightarrow> \<forall>c \<in> set pre. is_space c"
proof
  fix c assume "\<forall>c \<in> set pre. c = CHR '' ''" and "c \<in> set pre"
  then have "c = CHR '' ''" by (rule bspec)
  then show "is_space c" by (simp add: is_space_blank)
qed

lemma blanks_no_slash: "\<forall>c \<in> set pre. c = CHR '' '' \<Longrightarrow> CHR ''/'' \<notin> set pre"
proof
  assume "\<forall>c \<in> set pre. c = CHR '' ''" and "CHR ''/'' \<in> set pre"
  then have "CHR ''/'' = CHR '' ''" by (rule bspec)
  then show False by simp
qed

lemma join_plain:
  assumes "ws \<noteq> []" and "\<forall>t \<in> set ws. plain_tag t"
  shows "join '' / '' ws \<noteq> [] \<and> hd (join '' / '' ws) = hd (hd ws) \<and>
         last (join '' / '' ws) = last (last ws) \<and> single_spaced (join '' / '' ws) \<and>
         CHR '','' \<notin> set (join '' / '' ws)"
  using assms
proof (induction "'' / ''" ws rule: join.induct)
  case 1
  then show ?case by simp
next
  case (2 x)
  then have "plain_tag x" by simp
  note px = plain_tagD [OF this]
  from px(1,3,6) show ?case by simp
next
  case (3 x y ys)
  then have "plain_tag x" by simp
  note px = plain_tagD [OF this]
  from 3 have "plain_tag y" by simp
  note py = plain_tagD [OF this]
  let ?r = "join '' / '' (y # ys)"
  from 3 have r: "?r \<noteq> []" "hd ?r = hd y" "last ?r = last (last (y # ys))"
    "single_spaced ?r" "CHR '','' \<notin> set ?r"
    by simp_all
  from r(2) py(2) have "\<not> is_space (hd ?r)" by simp
  with r(1) have "single_spaced ('' / '' @ ?r)"
    using r(4) by (rule single_spaced_separator)
  with px(3) have ss: "single_spaced (x @ '' / '' @ ?r)"
    by (rule single_spaced_append)
  have e: "join '' / '' (x # y # ys) = x @ '' / '' @ ?r" by simp
  have "hd (x @ '' / '' @ ?r) = hd x"
    using px(1) by simp
  moreover have "last (x @ '' / '' @ ?r) = last (last (x # y # ys))"
    using r(1,3) by simp
  moreover have "CHR '','' \<notin> set (x @ '' / '' @ ?r)"
    using r(5) px(6) by simp
  ultimately show ?case unfolding e using ss r(1) by simp
qed

lemma split_join:
  assumes "ws \<noteq> []" and "\<forall>t \<in> set ws. plain_tag t" and "\<forall>c \<in> set pre. c = CHR '' ''"
  shows "map strip (split_on CHR ''/'' (pre @ join '' / '' ws)) = ws"
  using assms
proof (induction "'' / ''" ws arbitrary: pre rule: join.induct)
  case 1
  then show ?case by simp
next
  case (2 x)
  then have "plain_tag x" by simp
  note px = plain_tagD [OF this]
  have pre: "\<forall>c \<in> set pre. is_space c" using "2.prems"(3) by (rule blanks_are_spaces)
  have nopre: "CHR ''/'' \<notin> set pre" using "2.prems"(3) by (rule blanks_no_slash)
  with px(5) have "CHR ''/'' \<notin> set (pre @ x)" by simp
  then have "split_on CHR ''/'' (pre @ x) = [pre @ x]" by (rule split_on_no_separator)
  moreover have "strip (pre @ x @ []) = x"
    using px(1,2,4) pre by (rule strip_blanks_around) simp
  ultimately show ?case by simp
next
  case (3 x y ys)
  then have "plain_tag x" by simp
  note px = plain_tagD [OF this]
  have pre: "\<forall>c \<in> set pre. is_space c" using "3.prems"(3) by (rule blanks_are_spaces)
  have nopre: "CHR ''/'' \<notin> set pre" using "3.prems"(3) by (rule blanks_no_slash)
  let ?r = "join '' / '' (y # ys)"
  have e: "pre @ join '' / '' (x # y # ys) = (pre @ x @ '' '') @ CHR ''/'' # ('' '' @ ?r)"
    by simp
  have "CHR ''/'' \<notin> set (pre @ x @ '' '')"
    using nopre px(5) by simp
  then have "split_on CHR ''/'' ((pre @ x @ '' '') @ CHR ''/'' # ('' '' @ ?r)) =
      (pre @ x @ '' '') # split_on CHR ''/'' ('' '' @ ?r)"
    by (rule split_on_append)
  moreover have "strip (pre @ x @ '' '') = x"
    using px(1,2,4) pre by (rule strip_blanks_around) (simp add: is_space_blank)
  moreover have "map strip (split_on CHR ''/'' ('' '' @ ?r)) = y # ys"
    using "3.prems"(2) by (intro "3.hyps") simp_all
  ultimately show ?case unfolding e by simp
qed

subsection \<open>The loops over the parts\<close>

lemma map_filter_all_Some: "\<forall>t \<in> set ws. f t = Some t \<Longrightarrow> List.map_filter f ws = ws"
  by (induction ws) (simp_all add: List.map_filter_simps)

lemma unique_parts_distinct:
  "distinct ps \<Longrightarrow> [] \<notin> set ps \<Longrightarrow> set ps \<inter> set seen = {} \<Longrightarrow> unique_parts seen ps = ps"
  by (induction ps arbitrary: seen) (auto simp: in_list_def)

subsection \<open>The tags\<close>

lemma location_tags_plain: "list_all plain_tag location_tags"
  by code_simp

lemma location_tags_fixed: "list_all (\<lambda>t. normalize_part t = Some t) location_tags"
  by code_simp

lemma normalize_location_join:
  assumes "ws \<noteq> []" and "distinct ws" and "set ws \<subseteq> set location_tags"
  shows "normalize_location (join '' / '' ws) = join '' / '' ws"
proof -
  let ?s = "join '' / '' ws"
  from assms(3) have plain: "\<forall>t \<in> set ws. plain_tag t"
    and fixed: "\<forall>t \<in> set ws. normalize_part t = Some t"
    using location_tags_plain location_tags_fixed by (auto simp: list_all_iff)
  from assms(1) have hw: "hd ws \<in> set ws" and lw: "last ws \<in> set ws" by simp_all
  from join_plain [OF assms(1) plain] have s: "?s \<noteq> []" "hd ?s = hd (hd ws)"
    "last ?s = last (last ws)" "single_spaced ?s" "CHR '','' \<notin> set ?s"
    by simp_all
  from plain hw lw s have ends: "\<not> is_space (hd ?s)" "hd ?s \<noteq> CHR ''/''"
    "\<not> is_space (last ?s)" "last ?s \<noteq> CHR ''/''" "last ?s \<noteq> CHR ''.''"
    by (simp_all add: plain_tagD)
  have 1: "strip ?s = ?s" using s(1) ends by (simp add: strip_plain)
  have 2: "re_sub ws_run (\<lambda>_. '' '') ?s = ?s"
    using s(4) by (simp add: re_sub_def ws_run_single_spaced)
  have 3: "re_sub edge_slashes (\<lambda>_. []) ?s = ?s"
    unfolding re_sub_def
  proof (rule re_sub_from_no_match)
    fix pre t
    assume st: "?s = pre @ t" and t: "t \<noteq> []"
    then have "last t = last ?s" by simp
    moreover have "hd t = hd ?s" if "last_char None pre = None"
      using that st by (cases pre) (simp_all add: last_char_def)
    ultimately show "re_alt edge_slashes (last_char None pre) t = None"
      using t ends by (intro edge_slashes_no_match) simp_all
  qed
  have 4: "re_sub trailing_period (\<lambda>_. []) ?s = ?s"
    unfolding re_sub_def
  proof (rule re_sub_from_no_match)
    fix pre t
    assume "?s = pre @ t" and t: "t \<noteq> []"
    then have "last t = last ?s" by simp
    with t ends show "re_alt trailing_period (last_char None pre) t = None"
      by (intro trailing_period_no_match) simp_all
  qed
  have 5: "re_sub trailing_comma (\<lambda>_. []) ?s = ?s"
    unfolding re_sub_def
  proof (rule re_sub_from_no_match)
    fix pre t
    assume "?s = pre @ t"
    with s(5) have "CHR '','' \<notin> set t" by (metis Un_iff set_append)
    then show "re_alt trailing_comma (last_char None pre) t = None"
      by (rule trailing_comma_no_match)
  qed
  have 6: "map strip (split_on CHR ''/'' ?s) = ws"
    using split_join [OF assms(1) plain, of "[]"] by simp
  have 7: "List.map_filter normalize_part ws = ws"
    using fixed by (rule map_filter_all_Some)
  have "[] \<notin> set ws" using plain by (auto simp: plain_tag_def)
  with assms(2) have 8: "unique_parts [] ws = ws"
    by (simp add: unique_parts_distinct)
  from s(1) assms(1) show ?thesis
    by (simp add: normalize_location_def Let_def 1 2 3 4 5 6 7 8)
qed

lemma normalize_location_idempotent:
  "normalize_location (normalize_location loc) = normalize_location loc"
proof (cases "loc = []")
  case True
  then show ?thesis by (simp add: normalize_location_def)
next
  case False
  from normalize_location_shape [OF False] obtain ts where
    ts: "distinct ts" "set ts \<subseteq> set location_tags"
    "normalize_location loc = (if ts = [] then ''Remote'' else join '' / '' ts)"
    by blast
  show ?thesis
  proof (cases "ts = []")
    case True
    with ts(3) have "normalize_location loc = join '' / '' [''Remote'']" by simp
    moreover have "normalize_location (join '' / '' [''Remote'']) = join '' / '' [''Remote'']"
      by (rule normalize_location_join) (simp_all add: Remote_tag)
    ultimately show ?thesis by simp
  next
    case False
    with ts show ?thesis by (simp add: normalize_location_join)
  qed
qed

section \<open>Properties of normalize_industry\<close>

lemma mapping_values_are_tags:
  "list_all (\<lambda>p. snd p = [] \<or> in_list (snd p) industry_tags) mappings"
  by code_simp

lemma mapping_value_is_tag:
  assumes "dict_get mappings k = Some v" and "v \<noteq> []"
  shows "v \<in> set industry_tags"
proof -
  from assms(1) have "(k, v) \<in> set mappings"
    by (simp add: dict_get_def map_of_SomeD)
  with mapping_values_are_tags have "snd (k, v) = [] \<or> in_list (snd (k, v)) industry_tags"
    unfolding list_all_iff by (rule bspec)
  with assms(2) show ?thesis by (simp add: in_list_def)
qed

lemma normalize_industry_range:
  "normalize_industry s = Some v \<Longrightarrow>
     v \<in> set industry_tags \<or> v = standardize_capitalization (strip s)"
proof -
  define Q where "Q r \<longleftrightarrow> (\<forall>v. r = Some v \<longrightarrow>
      v \<in> set industry_tags \<or> v = standardize_capitalization (strip s))" for r
  have ifQ: "Q (if c then a else b)" if "c \<Longrightarrow> Q a" "\<not> c \<Longrightarrow> Q b" for c a b
    using that by simp
  have tagQ: "Q (Some t)" if "t \<in> set industry_tags" for t
    using that by (simp add: Q_def)
  have passQ: "Q (Some (standardize_capitalization (strip s)))"
    by (simp add: Q_def)
  have dictQ: "Q (case dict_get mappings k of
             Some normalized \<Rightarrow> if normalized = [] then None else Some normalized
           | None \<Rightarrow> Some (standardize_capitalization (strip s)))" for k
    by (cases "dict_get mappings k") (auto simp: Q_def dest: mapping_value_is_tag)
  have emptyQ: "Q (Some s)" if "s = []"
  proof -
    have "standardize_capitalization (strip []) = []" by code_simp
    with that show ?thesis by (simp add: Q_def)
  qed
  have "Q (normalize_industry s)"
    unfolding normalize_industry_def Let_def
    apply (rule ifQ)
     apply (erule emptyQ)
    apply (rule ifQ dictQ | (rule tagQ, simp add: industry_tags_def))+
    done
  then show "normalize_industry s = Some v \<Longrightarrow>
     v \<in> set industry_tags \<or> v = standardize_capitalization (strip s)"
    by (simp add: Q_def)
qed

lemma industry_fixed_1:
  "list_all (\<lambda>v. normalize_industry v = Some v)
     [''Mental Health'', ''Healthcare'', ''Robotics'', ''AI'', ''Web3'', ''Fintech'',
      ''Biotech'', ''E-commerce'', ''Edtech'', ''Insurtech'']"
  by code_simp

lemma industry_fixed_2:
  "list_all (\<lambda>v. normalize_industry v = Some v)
     [''Cybersecurity'', ''Marketing'', ''Logistics'', ''Real Estate'', ''HRTech'', ''Legal'',
      ''Climate'', ''Energy'', ''Food & Beverage'', ''Aerospace'']"
  by code_simp

lemma industry_fixed_3:
  "list_all (\<lambda>v. normalize_industry v = Some v)
     [''Defense'', ''Travel'', ''Gaming'', ''Social Media'', ''Media'', ''Developer Tools'',
      ''Infrastructure'', ''Hardware'', ''Manufacturing'', ''Government'']"
  by code_simp

lemma industry_fixed_4:
  "list_all (\<lambda>v. normalize_industry v = Some v)
     [''Nonprofit'', ''Agriculture'', ''Productivity'', ''Quantum Computing'',
      ''SaaS'', ''Data'', ''Consumer'', ''Sports'', ''Automotive'', ''VC'', ''Services'']"
  by code_simp

lemma industry_tags_fixed: "\<forall>v \<in> set industry_tags. normalize_industry v = Some v"
  using industry_fixed_1 industry_fixed_2 industry_fixed_3 industry_fixed_4
  unfolding industry_tags_def by simp

text \<open>
  Claim C8. Each canonical industry tag is a fixed point of \<open>normalize_industry\<close>; the
  join with \<open>" / "\<close> of every non-empty list of distinct location tags (the tags of the
  gazetteer and \<open>Remote\<close>) is a fixed point of \<open>normalize_location\<close>; and so is every
  output of \<open>normalize_location\<close>.
\<close>

theorem normalizers_fix_canonical_values:
  "(\<forall>v \<in> set industry_tags. normalize_industry v = Some v) \<and>
   (\<forall>ts. ts \<noteq> [] \<and> distinct ts \<and> set ts \<subseteq> set location_tags \<longrightarrow>
      normalize_location (join '' / '' ts) = join '' / '' ts) \<and>
   (\<forall>loc. normalize_location (normalize_location loc) = normalize_location loc)"
  using industry_tags_fixed normalize_location_join normalize_location_idempotent
  by blast

theorem normalizers_fix_canonical_values_witness:
  "''Healthcare'' \<in> set industry_tags \<and>
   normalize_industry ''Healthcare'' = Some ''Healthcare'' \<and>
   [''SF'', ''Remote''] \<noteq> [] \<and> distinct [''SF'', ''Remote''] \<and>
   set [''SF'', ''Remote''] \<subseteq> set location_tags \<and>
   join '' / '' [''SF'', ''Remote''] = ''SF / Remote'' \<and>
   normalize_location (join '' / '' [''SF'', ''Remote'']) = join '' / '' [''SF'', ''Remote'']"
proof -
  have h: "''Healthcare'' \<in> set industry_tags" by (simp add: industry_tags_def)
  have n: "[''SF'', ''Remote''] \<noteq> []" by simp
  have d: "distinct [''SF'', ''Remote'']" by simp
  have "in_list ''SF'' location_tags" by code_simp
  then have s: "set [''SF'', ''Remote''] \<subseteq> set location_tags"
    by (simp add: in_list_def Remote_tag)
  have j: "join '' / '' [''SF'', ''Remote''] = ''SF / Remote''" by simp
  note t = normalizers_fix_canonical_values
  from t h have a: "normalize_industry ''Healthcare'' = Some ''Healthcare''" by blast
  from t n d s have b:
    "normalize_location (join '' / '' [''SF'', ''Remote'']) = join '' / '' [''SF'', ''Remote'']"
    by blast
  from h a n d s j b show ?thesis by (intro conjI)
qed

end
